theory Spec2Isabelle
  imports Complex_Main "HOL-Library.Word" "HOL-Library.Log_Nat"
begin

section \<open>GLWebViewState: geometry helpers\<close>

text \<open>
  The embedding follows \<^verbatim>\<open>Source/WebCore/platform/graphics/android/GLWebViewState.cpp\<close>.
  C++ \<^verbatim>\<open>int\<close> coordinates are modelled as unbounded \<open>int\<close> (signed overflow is
  undefined behaviour in C++, so the model speaks about runs without it); the
  \<^verbatim>\<open>unsigned int\<close> picture counter is a \<open>32 word\<close> and wraps. A finite \<^verbatim>\<open>float\<close> is
  the real number it stands for (no infinity, no NaN); comparisons of floats are
  exact on them. The float arithmetic of \<^verbatim>\<open>setViewport\<close>, which decides the tile counts,
  is rounded to binary32 after every operation, and its \<^verbatim>\<open>int\<close> arithmetic wraps at 32
  bits.
\<close>

record IntRect =
  m_x :: int
  m_y :: int
  m_width :: int
  m_height :: int

record FloatRect =
  f_x :: real
  f_y :: real
  f_width :: real
  f_height :: real

record SkRect =
  fLeft :: real
  fTop :: real
  fRight :: real
  fBottom :: real

record SkIRect =
  iLeft :: int
  iTop :: int
  iRight :: int
  iBottom :: int

definition mkIntRect :: "int \<Rightarrow> int \<Rightarrow> int \<Rightarrow> int \<Rightarrow> IntRect" where
  "mkIntRect a b w h = \<lparr>m_x = a, m_y = b, m_width = w, m_height = h\<rparr>"

definition IntRect_maxX :: "IntRect \<Rightarrow> int" where
  "IntRect_maxX r = m_x r + m_width r"

definition IntRect_maxY :: "IntRect \<Rightarrow> int" where
  "IntRect_maxY r = m_y r + m_height r"

text \<open>
  Modelled from the spec: \<^verbatim>\<open>IntRect\<close> (platform/graphics/IntRect.h, not part of the
  file under verification). A rectangle is empty when it is zero-sized (the spec's
  ``canonical empty rectangle with all fields zero'' and ``zero-sized rectangle'');
  as in WebCore a non-positive width or height counts as empty.
\<close>
definition IntRect_isEmpty :: "IntRect \<Rightarrow> bool" where
  "IntRect_isEmpty r \<longleftrightarrow> m_width r \<le> 0 \<or> m_height r \<le> 0"

text \<open>
  Modelled from the spec: \<^verbatim>\<open>IntRect::unite\<close> ``extends the union to the smallest
  rectangle enclosing both''; an empty argument changes nothing and an empty
  receiver adopts the argument.
\<close>
definition IntRect_unite :: "IntRect \<Rightarrow> IntRect \<Rightarrow> IntRect" where
  "IntRect_unite this other =
     (if IntRect_isEmpty other then this
      else if IntRect_isEmpty this then other
      else
        (let l = min (m_x this) (m_x other);
             t = min (m_y this) (m_y other);
             r = max (IntRect_maxX this) (IntRect_maxX other);
             b = max (IntRect_maxY this) (IntRect_maxY other)
         in mkIntRect l t (r - l) (b - t)))"

text \<open>
  Modelled from the spec: \<^verbatim>\<open>IntRect::intersects\<close>: two rectangles intersect when
  both are non-empty and their extents overlap on both axes.
\<close>
definition IntRect_intersects :: "IntRect \<Rightarrow> IntRect \<Rightarrow> bool" where
  "IntRect_intersects this other \<longleftrightarrow>
     \<not> IntRect_isEmpty this \<and> \<not> IntRect_isEmpty other
     \<and> m_x this < IntRect_maxX other \<and> m_x other < IntRect_maxX this
     \<and> m_y this < IntRect_maxY other \<and> m_y other < IntRect_maxY this"

text \<open>
  Modelled from the spec: \<^verbatim>\<open>inflate(d)\<close> grows a rectangle by \<open>d\<close> units in every
  direction (used with 8 for layer rectangles and with 1 for the screen rectangle).
\<close>
definition IntRect_inflate :: "int \<Rightarrow> IntRect \<Rightarrow> IntRect" where
  "IntRect_inflate d r = mkIntRect (m_x r - d) (m_y r - d) (m_width r + 2 * d) (m_height r + 2 * d)"

text \<open>Modelled from the spec: \<^verbatim>\<open>FloatRect::inflate\<close>, the same on a float rectangle.\<close>
definition FloatRect_inflate :: "real \<Rightarrow> FloatRect \<Rightarrow> FloatRect" where
  "FloatRect_inflate d r =
     \<lparr>f_x = f_x r - d, f_y = f_y r - d, f_width = f_width r + 2 * d, f_height = f_height r + 2 * d\<rparr>"

text \<open>The implicit C++ conversion from \<^verbatim>\<open>float\<close> to \<^verbatim>\<open>int\<close> truncates towards zero.\<close>
definition static_cast_int :: "real \<Rightarrow> int" where
  "static_cast_int v = (if 0 \<le> v then \<lfloor>v\<rfloor> else \<lceil>v\<rceil>)"

definition floorf :: "real \<Rightarrow> real" where
  "floorf v = of_int \<lfloor>v\<rfloor>"

definition ceilf :: "real \<Rightarrow> real" where
  "ceilf v = of_int \<lceil>v\<rceil>"

text \<open>
  Rounding to binary32 (IEEE 754 single precision, round to nearest, ties to even):
  a value with binary exponent \<open>e\<close>, at least \<open>-126\<close>, is rounded to a multiple of
  \<open>2 powi (e - 23)\<close>; below \<open>2 powi (-126)\<close> the spacing stays \<open>2 powi (-149)\<close>
  (subnormal numbers). A result of \<open>2 ^ 128\<close> or more stands for an infinity of the
  code.
\<close>
definition round_to_even :: "real \<Rightarrow> int" where
  "round_to_even q =
     (let f = \<lfloor>q\<rfloor>; d = q - of_int f
      in if d < 1 / 2 then f else if 1 / 2 < d then f + 1 else if even f then f else f + 1)"

definition float_exponent :: "real \<Rightarrow> int" where
  "float_exponent x = max (- 126) (bitlen \<lfloor>\<bar>x\<bar> * 2 ^ 149\<rfloor> - 150)"

definition binary32 :: "real \<Rightarrow> real" where
  "binary32 x =
     (let u = 2 powi (float_exponent x - 23)
      in of_int (round_to_even (x / u)) * u)"

definition rounds_finite :: "real \<Rightarrow> bool" where
  "rounds_finite x \<longleftrightarrow> \<bar>binary32 x\<bar> < 2 ^ 128"

text \<open>A 32-bit \<^verbatim>\<open>int\<close> that wraps around: the value in two's complement.\<close>
definition int32 :: "int \<Rightarrow> int" where
  "int32 k = (k + 2 ^ 31) mod 2 ^ 32 - 2 ^ 31"

text \<open>
  Skia's rectangles \<^verbatim>\<open>SkRect\<close> (floats) and \<^verbatim>\<open>SkIRect\<close> (integers) are given by
  their four edges; an \<^verbatim>\<open>SkIRect\<close> is empty when an edge pair is not in order. The
  width and the height of an \<^verbatim>\<open>SkRect\<close> are float differences.
\<close>
definition SkRect_width :: "SkRect \<Rightarrow> real" where
  "SkRect_width r = binary32 (fRight r - fLeft r)"

definition SkRect_height :: "SkRect \<Rightarrow> real" where
  "SkRect_height r = binary32 (fBottom r - fTop r)"

definition SkRect_setEmpty :: SkRect where
  "SkRect_setEmpty = \<lparr>fLeft = 0, fTop = 0, fRight = 0, fBottom = 0\<rparr>"

definition SkIRect_set :: "int \<Rightarrow> int \<Rightarrow> int \<Rightarrow> int \<Rightarrow> SkIRect" where
  "SkIRect_set l t r b = \<lparr>iLeft = l, iTop = t, iRight = r, iBottom = b\<rparr>"

definition SkIRect_isEmpty :: "SkIRect \<Rightarrow> bool" where
  "SkIRect_isEmpty r \<longleftrightarrow> iLeft r \<ge> iRight r \<or> iTop r \<ge> iBottom r"

definition SkIRect_width :: "SkIRect \<Rightarrow> int" where
  "SkIRect_width r = iRight r - iLeft r"

definition SkIRect_height :: "SkIRect \<Rightarrow> int" where
  "SkIRect_height r = iBottom r - iTop r"

text \<open>
  Modelled from the spec: \<^verbatim>\<open>SkRegion\<close> (Skia). The spec describes the pending dirty
  region as a ``set of rectangles, order-irrelevant, merged by union'' that is
  flushed rectangle by rectangle; the model keeps the rectangles that were united
  into the region, in order, and the iterator walks them. An empty rectangle adds
  nothing to a region. Properties of regions are stated on the covered points, so
  they do not depend on how a region is cut into rectangles.
\<close>
type_synonym SkRegion = "SkIRect list"

definition SkRegion_setEmpty :: SkRegion where
  "SkRegion_setEmpty = []"

definition SkRegion_isEmpty :: "SkRegion \<Rightarrow> bool" where
  "SkRegion_isEmpty rgn \<longleftrightarrow> rgn = []"

definition SkRegion_op_union :: "SkIRect \<Rightarrow> SkRegion \<Rightarrow> SkRegion" where
  "SkRegion_op_union r rgn = (if SkIRect_isEmpty r then rgn else rgn @ [r])"

definition SkRegion_setRect :: "SkIRect \<Rightarrow> SkRegion" where
  "SkRegion_setRect r = (if SkIRect_isEmpty r then [] else [r])"

definition SkRegion_Iterator :: "SkRegion \<Rightarrow> SkIRect list" where
  "SkRegion_Iterator rgn = rgn"

definition IntRect_to_SkIRect :: "IntRect \<Rightarrow> SkIRect" where
  "IntRect_to_SkIRect r = SkIRect_set (m_x r) (m_y r) (IntRect_maxX r) (IntRect_maxY r)"

text \<open>The points covered by a rectangle and by a region (specification only).\<close>
definition IntRect_points :: "IntRect \<Rightarrow> (int \<times> int) set" where
  "IntRect_points r =
     {(px, py). m_x r \<le> px \<and> px < IntRect_maxX r \<and> m_y r \<le> py \<and> py < IntRect_maxY r}"

definition SkIRect_points :: "SkIRect \<Rightarrow> (int \<times> int) set" where
  "SkIRect_points r = {(px, py). iLeft r \<le> px \<and> px < iRight r \<and> iTop r \<le> py \<and> py < iBottom r}"

definition SkRegion_points :: "SkRegion \<Rightarrow> (int \<times> int) set" where
  "SkRegion_points rgn = (\<Union>r \<in> set rgn. SkIRect_points r)"

section \<open>The state of a GLWebViewState and its collaborators\<close>

text \<open>
  A tiled page is identified by its id; the constructor creates the two pages with
  \<^verbatim>\<open>FIRST_TILED_PAGE_ID\<close> and \<^verbatim>\<open>SECOND_TILED_PAGE_ID\<close>. Layers are identified by a
  number as well; a possibly null pointer is an \<open>option\<close>. Reference counting
  (\<^verbatim>\<open>SkSafeRef\<close>, \<^verbatim>\<open>SkSafeUnref\<close>) and the mutexes are not modelled: the model is
  the sequential behaviour of one call at a time.
\<close>

datatype TiledPage = TiledPage nat

definition FIRST_TILED_PAGE_ID :: nat where
  "FIRST_TILED_PAGE_ID = 1"

definition SECOND_TILED_PAGE_ID :: nat where
  "SECOND_TILED_PAGE_ID = 2"

definition MIN_SCALE_WARNING :: real where
  "MIN_SCALE_WARNING = 1 / 10"

definition MAX_SCALE_WARNING :: real where
  "MAX_SCALE_WARNING = 10"

type_synonym LayerAndroid = nat
type_synonym Color = nat
type_synonym SkPicture = nat

definition SK_ColorWHITE :: Color where
  "SK_ColorWHITE = 4294967295"

record BaseLayerAndroid =
  layer_id :: nat
  content_width :: int
  content_height :: int
  children :: "LayerAndroid list"
  backgroundColor :: Color

record ZoomManager =
  currentScale :: real
  futureScale :: real

text \<open>
  Calls into collaborators (tiled pages, the tiles manager, the transfer queue, the
  profiler, layers, GL and the log) are recorded in the order in which they are made.
\<close>
datatype call =
    TiledPage_discardTextures TiledPage
  | TiledPage_invalidateRect TiledPage IntRect "32 word"
  | TiledPage_updateBaseTileSize TiledPage
  | TilesManager_setMaxTextureCount int
  | TilesManager_setShowVisualIndicator bool
  | TilesManager_incDrawGLCount
  | TilesManager_gatherLayerTextures
  | TilesManager_swapLayersTextures "LayerAndroid option" "LayerAndroid option"
  | TransferQueue_updateDirtyBaseTiles
  | Profiler_nextFrame SkRect real
  | Profiler_nextInval IntRect real
  | ZoomManager_swapPages_call
  | BaseLayerAndroid_swapExtra nat nat
  | BaseLayerAndroid_setGLWebViewState nat
  | BaseLayerAndroid_setExtra nat SkPicture
  | BaseLayerAndroid_drawGL_call nat "LayerAndroid option"
  | XLOGC_scale_before_update real
  | XLOGC_scale_after_update real
  | glClearColor bool Color
  | glClear
  | glViewport IntRect
  | ShaderProgram_setup IntRect SkRect IntRect int IntRect
  | paintExtras_call
  | glBindBuffer

record GLWebViewState =
  m_zoomManager :: ZoomManager
  m_baseLayer :: "BaseLayerAndroid option"
  m_currentBaseLayer :: "BaseLayerAndroid option"
  m_previouslyUsedRoot :: "LayerAndroid option"
  m_currentPictureCounter :: "32 word"
  m_usePageA :: bool
  m_frameworkInval :: IntRect
  m_frameworkLayersInval :: IntRect
  m_baseLayerUpdate :: bool
  m_backgroundColor :: Color
  m_displayRings :: bool
  m_rings :: SkRegion
  m_ringsIsPressed :: bool
  m_ringsIsButton :: bool
  m_goingDown :: bool
  m_goingLeft :: bool
  m_expandedTileBoundsX :: int
  m_expandedTileBoundsY :: int
  m_viewport :: SkRect
  m_viewportTileBounds :: SkIRect
  m_tiledPageA :: TiledPage
  m_tiledPageB :: TiledPage
  m_invalidateRegion :: SkRegion
  m_lastInval :: IntRect
  invertedScreen :: bool
  invertedScreenSwitch :: bool
  calls :: "(call \<times> TiledPage) list"

text \<open>
  The last three fields are not members of the class: \<open>invertedScreen\<close> and
  \<open>invertedScreenSwitch\<close> are the two flags of the \<^verbatim>\<open>TilesManager\<close> singleton that
  \<^verbatim>\<open>drawGL\<close> reads and clears, and \<open>calls\<close> is the record of calls into collaborators,
  each paired with the page that was the front page when the call was made.
\<close>

text \<open>
  The operations of the class other than \<^verbatim>\<open>drawGL\<close>, as values: the host calls them
  between frames, and the delegated draw of a frame may call back into them.
\<close>
datatype op =
    Op_setBaseLayer "BaseLayerAndroid option" SkRegion bool bool
  | Op_setRings "IntRect list" bool bool
  | Op_unlockBaseLayerUpdate
  | Op_lockBaseLayerUpdate
  | Op_setExtra BaseLayerAndroid SkPicture IntRect bool
  | Op_inval IntRect
  | Op_resetRings
  | Op_swapPages
  | Op_setViewport SkRect real
  | Op_resetFrameworkInval
  | Op_addDirtyArea IntRect
  | Op_resetLayersDirtyArea

text \<open>
  What the file takes from outside: the tile size and the prefetch constants of
  \<^verbatim>\<open>TilesManager.h\<close>, the zoom manager's reactions, the shader's coordinate mapping,
  the clock, and the delegated \<^verbatim>\<open>BaseLayerAndroid::drawGL\<close>: what it returns and
  which operations it calls back while it draws.
\<close>
record env =
  tileWidth :: real
  tileHeight :: real
  TILE_PREFETCH_DISTANCE :: int
  TILE_PREFETCH_RATIO :: real
  ZoomManager_swapPages :: "ZoomManager \<Rightarrow> ZoomManager"
  ZoomManager_processNewScale :: "real \<Rightarrow> real \<Rightarrow> ZoomManager \<Rightarrow> ZoomManager"
  rectInInvScreenCoord :: "IntRect \<Rightarrow> FloatRect"
  currentTime :: real
  BaseLayerAndroid_drawGL :: "GLWebViewState \<Rightarrow> bool \<times> op list"

definition frontPage :: "GLWebViewState \<Rightarrow> TiledPage" where
  "frontPage s = (if m_usePageA s then m_tiledPageA s else m_tiledPageB s)"

definition backPage :: "GLWebViewState \<Rightarrow> TiledPage" where
  "backPage s = (if m_usePageA s then m_tiledPageB s else m_tiledPageA s)"

definition sibling :: "TiledPage \<Rightarrow> GLWebViewState \<Rightarrow> TiledPage" where
  "sibling page s = (if page = m_tiledPageA s then m_tiledPageB s else m_tiledPageA s)"

definition emit :: "call \<Rightarrow> GLWebViewState \<Rightarrow> GLWebViewState" where
  "emit c s = s\<lparr>calls := calls s @ [(c, frontPage s)]\<rparr>"

text \<open>
  The constructor (lines 79--115). The zoom manager and the tiles manager are built
  elsewhere; they start here at scale 1 and without inverted screen, and
  \<open>reachable\<close> below lets them take any other value.
\<close>
definition GLWebViewState_new :: GLWebViewState where
  "GLWebViewState_new =
     \<lparr>m_zoomManager = \<lparr>currentScale = 1, futureScale = 1\<rparr>,
      m_baseLayer = None,
      m_currentBaseLayer = None,
      m_previouslyUsedRoot = None,
      m_currentPictureCounter = 0,
      m_usePageA = True,
      m_frameworkInval = mkIntRect 0 0 0 0,
      m_frameworkLayersInval = mkIntRect 0 0 0 0,
      m_baseLayerUpdate = True,
      m_backgroundColor = SK_ColorWHITE,
      m_displayRings = False,
      m_rings = SkRegion_setEmpty,
      m_ringsIsPressed = False,
      m_ringsIsButton = False,
      m_goingDown = True,
      m_goingLeft = False,
      m_expandedTileBoundsX = 0,
      m_expandedTileBoundsY = 0,
      m_viewport = SkRect_setEmpty,
      m_viewportTileBounds = SkIRect_set 0 0 0 0,
      m_tiledPageA = TiledPage FIRST_TILED_PAGE_ID,
      m_tiledPageB = TiledPage SECOND_TILED_PAGE_ID,
      m_invalidateRegion = SkRegion_setEmpty,
      m_lastInval = mkIntRect 0 0 0 0,
      invertedScreen = False,
      invertedScreenSwitch = False,
      calls = []\<rparr>"

section \<open>Invalidation and the base layer gate\<close>

text \<open>\<^verbatim>\<open>inval\<close> (lines 246--267).\<close>
definition inval :: "IntRect \<Rightarrow> GLWebViewState \<Rightarrow> GLWebViewState" where
  "inval rect s =
     (let s1 =
        (if m_baseLayerUpdate s then
           (let s2 = s\<lparr>m_currentPictureCounter := m_currentPictureCounter s + 1\<rparr> in
            if \<not> IntRect_isEmpty rect then
              (let s3 = emit (TiledPage_invalidateRect (frontPage s2) rect (m_currentPictureCounter s2)) s2 in
               if IntRect_isEmpty (m_frameworkInval s3)
               then s3\<lparr>m_frameworkInval := rect\<rparr>
               else s3\<lparr>m_frameworkInval := IntRect_unite (m_frameworkInval s3) rect\<rparr>)
            else s2)
         else
           s\<lparr>m_invalidateRegion :=
                SkRegion_op_union
                  (SkIRect_set (m_x rect) (m_y rect) (IntRect_maxX rect) (IntRect_maxY rect))
                  (m_invalidateRegion s)\<rparr>)
      in emit (Profiler_nextInval rect (currentScale (m_zoomManager s1))) s1)"

text \<open>\<^verbatim>\<open>invalRegion\<close> (lines 201--210): one \<^verbatim>\<open>inval\<close> per rectangle of the region.\<close>
definition invalRegion :: "SkRegion \<Rightarrow> GLWebViewState \<Rightarrow> GLWebViewState" where
  "invalRegion region s =
     fold (\<lambda>r. inval (mkIntRect (iLeft r) (iTop r) (SkIRect_width r) (SkIRect_height r)))
       (SkRegion_Iterator region) s"

text \<open>\<^verbatim>\<open>setBaseLayer\<close> (lines 146--184).\<close>
definition setBaseLayer ::
  "BaseLayerAndroid option \<Rightarrow> SkRegion \<Rightarrow> bool \<Rightarrow> bool \<Rightarrow> GLWebViewState \<Rightarrow> GLWebViewState" where
  "setBaseLayer layer invalRgn showVisualIndicator isPictureAfterFirstLayout s =
     (let s1 = (if layer = None \<or> isPictureAfterFirstLayout
                then emit (TiledPage_discardTextures (m_tiledPageB s))
                       (emit (TiledPage_discardTextures (m_tiledPageA s)) s)
                else s);
          s2 = (if isPictureAfterFirstLayout
                then s1\<lparr>m_baseLayerUpdate := True, m_invalidateRegion := SkRegion_setEmpty\<rparr>
                else s1);
          s3 = (case (m_baseLayer s2, layer) of
                  (Some old, Some new) \<Rightarrow> emit (BaseLayerAndroid_swapExtra (layer_id old) (layer_id new)) s2
                | _ \<Rightarrow> s2);
          s4 = s3\<lparr>m_baseLayer := layer\<rparr>;
          s5 = (case m_baseLayer s4 of
                  Some l \<Rightarrow> emit (BaseLayerAndroid_setGLWebViewState (layer_id l)) s4
                | None \<Rightarrow> s4);
          s6 = (if m_baseLayerUpdate s5 then s5\<lparr>m_currentBaseLayer := layer\<rparr> else s5);
          s7 = s6\<lparr>m_displayRings := False\<rparr>;
          s8 = invalRegion invalRgn s7
      in emit (TilesManager_setShowVisualIndicator showVisualIndicator) s8)"

text \<open>\<^verbatim>\<open>setRings\<close> (lines 186--199).\<close>
fun setRings_loop :: "IntRect list \<Rightarrow> bool \<Rightarrow> SkRegion \<Rightarrow> SkRegion" where
  "setRings_loop [] first rgn = rgn"
| "setRings_loop (r # rs) first rgn =
     setRings_loop rs False
       (if first then SkRegion_setRect (IntRect_to_SkIRect r)
        else SkRegion_op_union (IntRect_to_SkIRect r) rgn)"

definition setRings :: "IntRect list \<Rightarrow> bool \<Rightarrow> bool \<Rightarrow> GLWebViewState \<Rightarrow> GLWebViewState" where
  "setRings rings isPressed isButton s =
     s\<lparr>m_displayRings := True,
       m_rings := setRings_loop rings True SkRegion_setEmpty,
       m_ringsIsPressed := isPressed,
       m_ringsIsButton := isButton\<rparr>"

text \<open>\<^verbatim>\<open>unlockBaseLayerUpdate\<close> (lines 212--224).\<close>
definition unlockBaseLayerUpdate :: "GLWebViewState \<Rightarrow> GLWebViewState" where
  "unlockBaseLayerUpdate s =
     (if m_baseLayerUpdate s then s
      else
        (let s1 = s\<lparr>m_baseLayerUpdate := True\<rparr>;
             s2 = s1\<lparr>m_currentBaseLayer := m_baseLayer s1\<rparr>;
             s3 = invalRegion (m_invalidateRegion s2) s2
         in s3\<lparr>m_invalidateRegion := SkRegion_setEmpty\<rparr>))"

text \<open>
  Modelled from the spec: the gate's LOCKED state (section 4.3). The operation that
  enters it is declared with the class, outside the file under verification; it
  clears \<open>m_baseLayerUpdate\<close>, the flag that \<^verbatim>\<open>inval\<close>, \<^verbatim>\<open>setExtra\<close> and
  \<^verbatim>\<open>unlockBaseLayerUpdate\<close> test.
\<close>
definition lockBaseLayerUpdate :: "GLWebViewState \<Rightarrow> GLWebViewState" where
  "lockBaseLayerUpdate s = s\<lparr>m_baseLayerUpdate := False\<rparr>"

definition LOCKED :: "GLWebViewState \<Rightarrow> bool" where
  "LOCKED s \<longleftrightarrow> \<not> m_baseLayerUpdate s"

text \<open>\<^verbatim>\<open>setExtra\<close> (lines 226--244).\<close>
definition setExtra ::
  "BaseLayerAndroid \<Rightarrow> SkPicture \<Rightarrow> IntRect \<Rightarrow> bool \<Rightarrow> GLWebViewState \<Rightarrow> GLWebViewState" where
  "setExtra layer picture rect allowSame s =
     (if \<not> m_baseLayerUpdate s then s
      else
        (let s1 = emit (BaseLayerAndroid_setExtra (layer_id layer) picture) s in
         if \<not> allowSame \<and> m_lastInval s1 = rect then s1
         else
           (let s2 = (if \<not> IntRect_isEmpty rect then inval rect s1 else s1);
                s3 = (if \<not> IntRect_isEmpty (m_lastInval s2) then inval (m_lastInval s2) s2 else s2)
            in s3\<lparr>m_lastInval := rect, m_displayRings := False\<rparr>)))"

text \<open>\<^verbatim>\<open>resetRings\<close> (lines 269--272).\<close>
definition resetRings :: "GLWebViewState \<Rightarrow> GLWebViewState" where
  "resetRings s = s\<lparr>m_displayRings := False\<rparr>"

section \<open>Tiled pages, viewport and dirty areas\<close>

text \<open>\<^verbatim>\<open>swapPages\<close> (lines 396--403); \<^verbatim>\<open>m_usePageA ^= true\<close> negates the flag.\<close>
definition swapPages :: "env \<Rightarrow> GLWebViewState \<Rightarrow> GLWebViewState" where
  "swapPages e s =
     (let s1 = s\<lparr>m_usePageA := (m_usePageA s \<noteq> True)\<rparr>;
          oldPage = (if m_usePageA s1 then m_tiledPageB s1 else m_tiledPageA s1);
          s2 = emit ZoomManager_swapPages_call
                 (s1\<lparr>m_zoomManager := ZoomManager_swapPages e (m_zoomManager s1)\<rparr>)
      in emit (TiledPage_discardTextures oldPage) s2)"

definition baseContentWidth :: "GLWebViewState \<Rightarrow> int" where
  "baseContentWidth s = (case m_currentBaseLayer s of Some l \<Rightarrow> content_width l | None \<Rightarrow> 0)"

definition baseContentHeight :: "GLWebViewState \<Rightarrow> int" where
  "baseContentHeight s = (case m_currentBaseLayer s of Some l \<Rightarrow> content_height l | None \<Rightarrow> 0)"

text \<open>
  The locals of \<^verbatim>\<open>setViewport\<close> that make up the texture budget (lines 429--442). Every
  float operation is rounded to binary32: the quotient, the width, the subtraction
  of 1 and the product; \<^verbatim>\<open>ceilf\<close> is exact. The conversion to \<^verbatim>\<open>int\<close> is that of a value
  that fits (C++ leaves the other conversions undefined), and the \<^verbatim>\<open>int\<close> operations
  wrap.
\<close>
definition invTileContentWidth :: "env \<Rightarrow> real \<Rightarrow> real" where
  "invTileContentWidth e scale = binary32 (scale / tileWidth e)"

definition invTileContentHeight :: "env \<Rightarrow> real \<Rightarrow> real" where
  "invTileContentHeight e scale = binary32 (scale / tileHeight e)"

definition viewMaxTileX :: "env \<Rightarrow> SkRect \<Rightarrow> real \<Rightarrow> int" where
  "viewMaxTileX e viewport scale =
     int32 (static_cast_int
              (ceilf (binary32 (binary32 (SkRect_width viewport - 1) * invTileContentWidth e scale)))
            + 1)"

definition viewMaxTileY :: "env \<Rightarrow> SkRect \<Rightarrow> real \<Rightarrow> int" where
  "viewMaxTileY e viewport scale =
     int32 (static_cast_int
              (ceilf (binary32 (binary32 (SkRect_height viewport - 1) * invTileContentHeight e scale)))
            + 1)"

definition maxTextureCount :: "env \<Rightarrow> SkRect \<Rightarrow> real \<Rightarrow> int" where
  "maxTextureCount e viewport scale =
     int32 (int32 (int32 (viewMaxTileX e viewport scale + int32 (TILE_PREFETCH_DISTANCE e * 2)) *
                   int32 (viewMaxTileY e viewport scale + int32 (TILE_PREFETCH_DISTANCE e * 2)))
            * 2)"

text \<open>\<^verbatim>\<open>setViewport\<close> (lines 414--446).\<close>
definition setViewport :: "env \<Rightarrow> SkRect \<Rightarrow> real \<Rightarrow> GLWebViewState \<Rightarrow> GLWebViewState" where
  "setViewport e viewport scale s =
     (if m_viewport s = viewport \<and> futureScale (m_zoomManager s) = scale then s
      else
        (let s1 = s\<lparr>m_goingDown := (fTop (m_viewport s) - fTop viewport \<le> 0),
                     m_goingLeft := (fLeft (m_viewport s) - fLeft viewport \<ge> 0)\<rparr>;
             s2 = s1\<lparr>m_viewport := viewport\<rparr>;
             s3 = s2\<lparr>m_viewportTileBounds :=
                        SkIRect_set
                          (static_cast_int
                             (floorf (binary32 (fLeft viewport * invTileContentWidth e scale))))
                          (static_cast_int
                             (floorf (binary32 (fTop viewport * invTileContentHeight e scale))))
                          (static_cast_int
                             (ceilf (binary32 (fRight viewport * invTileContentWidth e scale))))
                          (static_cast_int
                             (ceilf (binary32 (fBottom viewport * invTileContentHeight e scale))))\<rparr>;
             s4 = emit (TilesManager_setMaxTextureCount (maxTextureCount e viewport scale)) s3;
             s5 = emit (TiledPage_updateBaseTileSize (m_tiledPageA s4)) s4
         in emit (TiledPage_updateBaseTileSize (m_tiledPageB s5)) s5))"

text \<open>\<^verbatim>\<open>resetFrameworkInval\<close> (lines 461--467).\<close>
definition resetFrameworkInval :: "GLWebViewState \<Rightarrow> GLWebViewState" where
  "resetFrameworkInval s =
     s\<lparr>m_frameworkInval := (m_frameworkInval s)\<lparr>m_x := 0, m_y := 0, m_width := 0, m_height := 0\<rparr>\<rparr>"

text \<open>\<^verbatim>\<open>addDirtyArea\<close> (lines 469--480).\<close>
definition addDirtyArea :: "IntRect \<Rightarrow> GLWebViewState \<Rightarrow> GLWebViewState" where
  "addDirtyArea rect s =
     (if IntRect_isEmpty rect then s
      else
        (let inflatedRect = IntRect_inflate 8 rect in
         if IntRect_isEmpty (m_frameworkLayersInval s)
         then s\<lparr>m_frameworkLayersInval := inflatedRect\<rparr>
         else s\<lparr>m_frameworkLayersInval := IntRect_unite (m_frameworkLayersInval s) inflatedRect\<rparr>))"

text \<open>\<^verbatim>\<open>resetLayersDirtyArea\<close> (lines 482--488).\<close>
definition resetLayersDirtyArea :: "GLWebViewState \<Rightarrow> GLWebViewState" where
  "resetLayersDirtyArea s =
     s\<lparr>m_frameworkLayersInval :=
         (m_frameworkLayersInval s)\<lparr>m_x := 0, m_y := 0, m_width := 0, m_height := 0\<rparr>\<rparr>"

fun apply_op :: "env \<Rightarrow> op \<Rightarrow> GLWebViewState \<Rightarrow> GLWebViewState" where
  "apply_op e (Op_setBaseLayer layer rgn ind first) s = setBaseLayer layer rgn ind first s"
| "apply_op e (Op_setRings rings isPressed isButton) s = setRings rings isPressed isButton s"
| "apply_op e Op_unlockBaseLayerUpdate s = unlockBaseLayerUpdate s"
| "apply_op e Op_lockBaseLayerUpdate s = lockBaseLayerUpdate s"
| "apply_op e (Op_setExtra layer picture rect allowSame) s = setExtra layer picture rect allowSame s"
| "apply_op e (Op_inval rect) s = inval rect s"
| "apply_op e Op_resetRings s = resetRings s"
| "apply_op e Op_swapPages s = swapPages e s"
| "apply_op e (Op_setViewport viewport scale) s = setViewport e viewport scale s"
| "apply_op e Op_resetFrameworkInval s = resetFrameworkInval s"
| "apply_op e (Op_addDirtyArea rect) s = addDirtyArea rect s"
| "apply_op e Op_resetLayersDirtyArea s = resetLayersDirtyArea s"

section \<open>Drawing a frame\<close>

text \<open>
  \<^verbatim>\<open>setupDrawing\<close> (lines 490--531). The GL calls are recorded; the calls that
  configure the shader (its lazy \<^verbatim>\<open>init\<close>, the four rectangles, the title bar
  height and \<^verbatim>\<open>resetBlending\<close>) are recorded as one call.
\<close>
definition setupDrawing ::
  "env \<Rightarrow> IntRect \<Rightarrow> SkRect \<Rightarrow> IntRect \<Rightarrow> int \<Rightarrow> IntRect \<Rightarrow> real \<Rightarrow> GLWebViewState
     \<Rightarrow> real \<times> GLWebViewState" where
  "setupDrawing e viewRect visibleRect webViewRect titleBarHeight screenClip scale s =
     (let s1 = emit (glClearColor (invertedScreen s) (m_backgroundColor s)) s;
          s2 = emit glClear s1;
          s3 = emit (glViewport viewRect) s2;
          s4 = emit (ShaderProgram_setup viewRect visibleRect webViewRect titleBarHeight screenClip) s3;
          t = currentTime e;
          s5 = setViewport e visibleRect scale s4;
          s6 = s5\<lparr>m_zoomManager := ZoomManager_processNewScale e t scale (m_zoomManager s5)\<rparr>
      in (t, s6))"

datatype drawGL_result =
    is_CRASH: CRASH (crash_state: GLWebViewState)
  | is_Returned: Returned (returned_value: bool) (returned_invalRect: IntRect)
      (returned_state: GLWebViewState)

definition scale_corrupted :: "real \<Rightarrow> bool" where
  "scale_corrupted scale \<longleftrightarrow> scale < MIN_SCALE_WARNING \<or> scale > MAX_SCALE_WARNING"

text \<open>
  \<^verbatim>\<open>drawGL\<close>, lines 596--613: gathering textures, the swap of the composited root,
  the delegated draw with its calls back into this object, and the extras.
  \<^verbatim>\<open>paintExtras\<close> (lines 289--366) only issues GL draws for the rings and is
  recorded as one call.
\<close>
definition drawGL_draw ::
  "env \<Rightarrow> IntRect \<Rightarrow> SkRect \<Rightarrow> IntRect \<Rightarrow> int \<Rightarrow> IntRect \<Rightarrow> real \<Rightarrow> BaseLayerAndroid
     \<Rightarrow> LayerAndroid option \<Rightarrow> GLWebViewState \<Rightarrow> bool \<times> GLWebViewState" where
  "drawGL_draw e rect viewport webViewRect titleBarHeight clip scale baseLayer compositedRoot s =
     (let s1 = emit TilesManager_gatherLayerTextures s;
          s2 = (if compositedRoot \<noteq> m_previouslyUsedRoot s1
                then emit (TilesManager_swapLayersTextures (m_previouslyUsedRoot s1) compositedRoot) s1
                else s1);
          s3 = s2\<lparr>m_backgroundColor := backgroundColor baseLayer\<rparr>;
          (t, s4) = setupDrawing e rect viewport webViewRect titleBarHeight clip scale s3;
          s5 = emit (BaseLayerAndroid_drawGL_call (layer_id baseLayer) compositedRoot) s4;
          (ret, callbacks) = BaseLayerAndroid_drawGL e s5;
          s6 = fold (apply_op e) callbacks s5;
          s7 = emit paintExtras_call s6;
          s8 = emit glBindBuffer s7
      in (ret, s8\<lparr>m_previouslyUsedRoot := compositedRoot\<rparr>))"

text \<open>
  \<^verbatim>\<open>drawGL\<close>, lines 615--660: the invalidation reported to the caller through
  \<^verbatim>\<open>invalRect\<close>. \<open>rect\<close> is the first argument of \<^verbatim>\<open>drawGL\<close>.
\<close>
definition drawGL_inval ::
  "env \<Rightarrow> IntRect \<Rightarrow> IntRect \<Rightarrow> bool \<Rightarrow> GLWebViewState \<Rightarrow> drawGL_result" where
  "drawGL_inval e rect invalRect ret0 s =
     (let ret = (ret0 \<or> invertedScreenSwitch s) in
      if ret then
        (let fullScreenInval0 = IntRect_isEmpty (m_frameworkInval s);
             (fullScreenInval1, s1) =
               (if invertedScreenSwitch s then (True, s\<lparr>invertedScreenSwitch := False\<rparr>)
                else (fullScreenInval0, s));
             (fullScreenInval2, invalRect1) =
               (if \<not> fullScreenInval1 then
                  (let frameworkInval = FloatRect_inflate 1 (rectInInvScreenCoord e (m_frameworkInval s1));
                       inval0 = mkIntRect (static_cast_int (f_x frameworkInval))
                                  (static_cast_int (f_y frameworkInval))
                                  (static_cast_int (f_width frameworkInval))
                                  (static_cast_int (f_height frameworkInval));
                       inval1 = IntRect_unite inval0 (m_frameworkLayersInval s1);
                       invalRect' = invalRect\<lparr>m_x := m_x inval1, m_y := m_y inval1,
                                      m_width := m_width inval1, m_height := m_height inval1\<rparr>
                   in (if \<not> IntRect_intersects invalRect' rect then True else fullScreenInval1,
                       invalRect'))
                else (fullScreenInval1, invalRect));
             invalRect2 =
               (if fullScreenInval2
                then invalRect1\<lparr>m_x := 0, m_y := 0, m_width := 0, m_height := 0\<rparr>
                else invalRect1)
         in Returned ret invalRect2 s1)
      else Returned ret invalRect (resetFrameworkInval s))"

text \<open>
  \<^verbatim>\<open>drawGL\<close>, lines 537--594: the early return without a base layer, the prefetch
  expansion, the choice of the composited root, and the two checks of the scale
  around the upload of the dirty base tiles.
\<close>
datatype drawGL_prepared =
    NoBaseLayer GLWebViewState
  | Crashed GLWebViewState
  | Ready (ready_baseLayer: BaseLayerAndroid) (ready_compositedRoot: "LayerAndroid option")
      (ready_state: GLWebViewState)

definition drawGL_prepare :: "env \<Rightarrow> SkRect \<Rightarrow> real \<Rightarrow> GLWebViewState \<Rightarrow> drawGL_prepared" where
  "drawGL_prepare e viewport scale s =
     (let s1 = emit (Profiler_nextFrame viewport scale) s;
          s2 = emit TilesManager_incDrawGLCount s1
      in case m_currentBaseLayer s2 of
           None \<Rightarrow> NoBaseLayer s2
         | Some baseLayer \<Rightarrow>
             (let viewWidth = (fRight viewport - fLeft viewport) * TILE_PREFETCH_RATIO e;
                  viewHeight = (fBottom viewport - fTop viewport) * TILE_PREFETCH_RATIO e;
                  useHorzPrefetch = (viewWidth < of_int (baseContentWidth s2));
                  useVertPrefetch = (viewHeight < of_int (baseContentHeight s2));
                  s3 = s2\<lparr>m_expandedTileBoundsX := (if useHorzPrefetch then TILE_PREFETCH_DISTANCE e else 0),
                           m_expandedTileBoundsY := (if useVertPrefetch then TILE_PREFETCH_DISTANCE e else 0)\<rparr>;
                  s4 = resetLayersDirtyArea s3;
                  baseForComposited =
                    (case m_baseLayer s2 of
                       None \<Rightarrow> baseLayer
                     | Some b \<Rightarrow> if length (children b) = 0 then baseLayer else b);
                  compositedRoot =
                    (if length (children baseForComposited) \<ge> 1
                     then Some (children baseForComposited ! 0) else None);
                  s5 = (if scale_corrupted scale then emit (XLOGC_scale_before_update scale) s4 else s4);
                  s6 = emit TransferQueue_updateDirtyBaseTiles s5
              in if scale_corrupted scale
                 then Crashed (emit (XLOGC_scale_after_update scale) s6)
                 else Ready baseLayer compositedRoot s6))"

text \<open>\<^verbatim>\<open>drawGL\<close> (lines 533--677).\<close>
definition drawGL ::
  "env \<Rightarrow> IntRect \<Rightarrow> SkRect \<Rightarrow> IntRect \<Rightarrow> IntRect \<Rightarrow> int \<Rightarrow> IntRect \<Rightarrow> real \<Rightarrow> GLWebViewState
     \<Rightarrow> drawGL_result" where
  "drawGL e rect viewport invalRect webViewRect titleBarHeight clip scale s =
     (case drawGL_prepare e viewport scale s of
        NoBaseLayer s2 \<Rightarrow> Returned False invalRect s2
      | Crashed s6 \<Rightarrow> CRASH s6
      | Ready baseLayer compositedRoot s6 \<Rightarrow>
          (let (ret, s7) = drawGL_draw e rect viewport webViewRect titleBarHeight clip scale
                             baseLayer compositedRoot s6
           in drawGL_inval e rect invalRect ret s7))"

section \<open>Reachable states and an example environment\<close>

text \<open>
  The states of a GLWebViewState: the constructor's state, and every state that an
  operation or a frame that returns leads to, under any environment. Between calls
  the collaborators may change on their own: the zoom manager its scales, the tiles
  manager its inverted screen flags.
\<close>
inductive reachable :: "GLWebViewState \<Rightarrow> bool" where
  reachable_new: "reachable GLWebViewState_new"
| reachable_op: "reachable s \<Longrightarrow> reachable (apply_op e op s)"
| reachable_collaborators:
    "reachable s \<Longrightarrow>
     reachable (s\<lparr>m_zoomManager := z, invertedScreen := isc, invertedScreenSwitch := sw\<rparr>)"
| reachable_drawGL:
    "reachable s \<Longrightarrow>
     drawGL e rect viewport invalRect webViewRect titleBarHeight clip scale s = Returned ret invalRect' s' \<Longrightarrow>
     reachable s'"

text \<open>
  An environment for the closed examples: tiles of 256 by 256, a prefetch distance of
  one tile, a zoom manager that keeps its scales, a shader that maps a rectangle to
  itself, and a delegated draw that reports dirtiness and calls nothing back.
\<close>
definition example_env :: env where
  "example_env =
     \<lparr>tileWidth = 256, tileHeight = 256,
      TILE_PREFETCH_DISTANCE = 1, TILE_PREFETCH_RATIO = 6 / 5,
      ZoomManager_swapPages = (\<lambda>z. z),
      ZoomManager_processNewScale = (\<lambda>t scale z. z),
      rectInInvScreenCoord =
        (\<lambda>r. \<lparr>f_x = of_int (m_x r), f_y = of_int (m_y r),
               f_width = of_int (m_width r), f_height = of_int (m_height r)\<rparr>),
      currentTime = 0,
      BaseLayerAndroid_drawGL = (\<lambda>s. (True, []))\<rparr>"

definition example_layer :: "nat \<Rightarrow> BaseLayerAndroid" where
  "example_layer n =
     \<lparr>layer_id = n, content_width = 100, content_height = 100, children = [],
      backgroundColor = SK_ColorWHITE\<rparr>"

text \<open>
  Example states: a state with a current base layer, and one in which a rectangle
  has been invalidated and the tiles manager has flagged a switch of the inverted
  screen mode.
\<close>
definition example_state :: GLWebViewState where
  "example_state = setBaseLayer (Some (example_layer 1)) [] False False GLWebViewState_new"

definition example_dirty_state :: GLWebViewState where
  "example_dirty_state = inval (mkIntRect 0 0 10 10) example_state"

definition example_switch_state :: GLWebViewState where
  "example_switch_state = example_dirty_state\<lparr>invertedScreenSwitch := True\<rparr>"

text \<open>
  A state in which an extras rectangle has been set and the rings are displayed.
\<close>
definition example_extras_state :: GLWebViewState where
  "example_extras_state =
     setRings [] False False
       (setExtra (example_layer 1) 7 (mkIntRect 1 1 5 5) False GLWebViewState_new)"

section \<open>Vocabulary of the properties\<close>

text \<open>
  The out-invalidation of a frame as C1 words it, for a frame whose draw reported
  dirtiness or that saw a switch of the inverted screen mode: the full-screen
  sentinel for an empty base-content union, otherwise the mapped and inflated union
  united with the layers' union, or the sentinel if that misses the frame's clip.
\<close>
definition C1_claimed_invalRect :: "env \<Rightarrow> IntRect \<Rightarrow> IntRect \<Rightarrow> IntRect \<Rightarrow> IntRect" where
  "C1_claimed_invalRect e frameClip baseUnion layersUnion =
     (if IntRect_isEmpty baseUnion then mkIntRect 0 0 0 0
      else
        (let f = FloatRect_inflate 1 (rectInInvScreenCoord e baseUnion);
             r = IntRect_unite
                   (mkIntRect (static_cast_int (f_x f)) (static_cast_int (f_y f))
                      (static_cast_int (f_width f)) (static_cast_int (f_height f)))
                   layersUnion
         in if IntRect_intersects r frameClip then r else mkIntRect 0 0 0 0))"

text \<open>
  A run of \<^verbatim>\<open>setBaseLayer\<close> calls without the flag \<^verbatim>\<open>isPictureAfterFirstLayout\<close>; each
  call gives the layer, the invalidated region and the visual indicator flag.
\<close>
fun setBaseLayer_calls ::
  "(BaseLayerAndroid option \<times> SkRegion \<times> bool) list \<Rightarrow> GLWebViewState \<Rightarrow> GLWebViewState" where
  "setBaseLayer_calls [] s = s"
| "setBaseLayer_calls ((layer, rgn, ind) # cs) s =
     setBaseLayer_calls cs (setBaseLayer layer rgn ind False s)"

text \<open>The rectangles handed to \<^verbatim>\<open>invalidateRect\<close> of the page that was the front page.\<close>
fun front_invalidateRects :: "(call \<times> TiledPage) list \<Rightarrow> IntRect list" where
  "front_invalidateRects [] = []"
| "front_invalidateRects ((TiledPage_invalidateRect p r c, f) # xs) =
     (if p = f then r # front_invalidateRects xs else front_invalidateRects xs)"
| "front_invalidateRects (x # xs) = front_invalidateRects xs"

text \<open>
  The budget of \<^verbatim>\<open>setViewport\<close> is defined by C++ when no float operation on the way
  leaves the finite floats and the two products that are converted fit an \<^verbatim>\<open>int\<close>.
\<close>
definition budget_defined :: "env \<Rightarrow> SkRect \<Rightarrow> real \<Rightarrow> bool" where
  "budget_defined e viewport scale \<longleftrightarrow>
     rounds_finite (fRight viewport - fLeft viewport)
     \<and> rounds_finite (fBottom viewport - fTop viewport)
     \<and> rounds_finite (scale / tileWidth e)
     \<and> rounds_finite (scale / tileHeight e)
     \<and> \<bar>binary32 (binary32 (SkRect_width viewport - 1) * invTileContentWidth e scale)\<bar> < 2 ^ 31
     \<and> \<bar>binary32 (binary32 (SkRect_height viewport - 1) * invTileContentHeight e scale)\<bar> < 2 ^ 31"

text \<open>The calls a step added to the record.\<close>
definition new_calls :: "GLWebViewState \<Rightarrow> GLWebViewState \<Rightarrow> (call \<times> TiledPage) list" where
  "new_calls s s' = drop (length (calls s)) (calls s')"

section \<open>Auxiliary lemmas\<close>

lemma emit_simps [simp]:
  "m_tiledPageA (emit c s) = m_tiledPageA s"
  "m_tiledPageB (emit c s) = m_tiledPageB s"
  "m_usePageA (emit c s) = m_usePageA s"
  "m_baseLayerUpdate (emit c s) = m_baseLayerUpdate s"
  "m_frameworkInval (emit c s) = m_frameworkInval s"
  "m_frameworkLayersInval (emit c s) = m_frameworkLayersInval s"
  "m_invalidateRegion (emit c s) = m_invalidateRegion s"
  "m_baseLayer (emit c s) = m_baseLayer s"
  "m_currentBaseLayer (emit c s) = m_currentBaseLayer s"
  "m_displayRings (emit c s) = m_displayRings s"
  "m_lastInval (emit c s) = m_lastInval s"
  "m_currentPictureCounter (emit c s) = m_currentPictureCounter s"
  "m_zoomManager (emit c s) = m_zoomManager s"
  "invertedScreenSwitch (emit c s) = invertedScreenSwitch s"
  "invertedScreen (emit c s) = invertedScreen s"
  "m_previouslyUsedRoot (emit c s) = m_previouslyUsedRoot s"
  "m_backgroundColor (emit c s) = m_backgroundColor s"
  "m_viewport (emit c s) = m_viewport s"
  "frontPage (emit c s) = frontPage s"
  "backPage (emit c s) = backPage s"
  "calls (emit c s) = calls s @ [(c, frontPage s)]"
  by (simp_all add: emit_def frontPage_def backPage_def)

lemma IntRect_update_all [simp]:
  "(r :: IntRect)\<lparr>m_x := a, m_y := b, m_width := c, m_height := d\<rparr> = mkIntRect a b c d"
  by (simp add: mkIntRect_def)

lemma mkIntRect_fields [simp]: "mkIntRect (m_x r) (m_y r) (m_width r) (m_height r) = r"
  by (simp add: mkIntRect_def)

lemma static_cast_int_of_int [simp]: "static_cast_int (of_int k) = k"
  by (simp add: static_cast_int_def)

lemma static_cast_int_ceilf [simp]: "static_cast_int (ceilf v) = \<lceil>v\<rceil>"
  by (simp add: ceilf_def)

lemma static_cast_int_floorf [simp]: "static_cast_int (floorf v) = \<lfloor>v\<rfloor>"
  by (simp add: floorf_def)

text \<open>Rounding to binary32 and wrapping at 32 bits.\<close>

lemma round_to_even_of_int [simp]: "round_to_even (of_int i) = i"
  by (simp add: round_to_even_def)

lemma round_to_even_minus: "round_to_even (- q) = - round_to_even q"
proof (cases "q = of_int \<lfloor>q\<rfloor>")
  case True
  then obtain i where "q = of_int i" ..
  then have "- q = of_int (- i)" by simp
  then show ?thesis using \<open>q = of_int i\<close> by (metis round_to_even_of_int)
next
  case False
  then have lt: "of_int \<lfloor>q\<rfloor> < q" by (metis of_int_floor_le order_le_less)
  have c: "\<lceil>q\<rceil> = \<lfloor>q\<rfloor> + 1" using False by (metis ceiling_altdef)
  have f: "\<lfloor>- q\<rfloor> = - \<lfloor>q\<rfloor> - 1" using c by (simp add: floor_minus)
  have lt1: "q < of_int \<lfloor>q\<rfloor> + 1" by linarith
  show ?thesis
    using lt lt1 unfolding round_to_even_def Let_def f
    by (auto simp: algebra_simps)
qed

lemma round_to_even_bound:
  assumes "\<bar>q\<bar> \<le> of_int N"
  shows "\<bar>round_to_even q\<bar> \<le> N"
proof -
  have lo: "- N \<le> \<lfloor>q\<rfloor>" using assms by (simp add: le_floor_iff abs_le_iff)
  have hi: "\<lfloor>q\<rfloor> \<le> N" using assms by (simp add: floor_le_iff abs_le_iff)
  have hi2: "\<lfloor>q\<rfloor> + 1 \<le> N" if "of_int \<lfloor>q\<rfloor> < q"
  proof -
    have "\<lfloor>q\<rfloor> < N" using that assms
      by (metis abs_le_iff floor_less_iff less_le_trans of_int_less_iff order_less_le_trans)
    then show ?thesis by simp
  qed
  show ?thesis
    using lo hi hi2 unfolding round_to_even_def Let_def
    by (auto simp: abs_le_iff)
qed


lemma powi2_less_imp: "(2::real) powi a < 2 powi b \<Longrightarrow> a < b"
  using power_int_increasing[of b a "2::real"] by (cases "a < b") auto

lemma bitlen_upper: "0 \<le> n \<Longrightarrow> n < 2 ^ nat (bitlen n)"
  using bitlen_bounds[of n] by (cases "n = 0") auto

lemma float_exponent_ge: "- 126 \<le> float_exponent x"
  by (simp add: float_exponent_def)

lemma float_exponent_minus [simp]: "float_exponent (- x) = float_exponent x"
  by (simp add: float_exponent_def)

lemma float_exponent_upper: "\<bar>x\<bar> < 2 powi (float_exponent x + 1)"
proof -
  define n where "n = \<lfloor>\<bar>x\<bar> * 2 ^ 149\<rfloor>"
  have n0: "0 \<le> n" by (simp add: n_def)
  have b0: "0 \<le> bitlen n" by (rule bitlen_nonneg)
  have "\<bar>x\<bar> * 2 ^ 149 < of_int (n + 1)" unfolding n_def by linarith
  also have "of_int (n + 1) \<le> (of_int (2 ^ nat (bitlen n)) :: real)"
    using bitlen_upper[OF n0] by (metis of_int_le_iff zless_imp_add1_zle)
  also have "\<dots> = 2 powi (bitlen n)"
    using b0 by (simp add: power_int_def)
  finally have "\<bar>x\<bar> * 2 powi 149 < 2 powi (bitlen n)" by simp
  then have "\<bar>x\<bar> < 2 powi (bitlen n) / 2 powi 149"
    by (simp add: pos_less_divide_eq)
  also have "\<dots> = 2 powi (bitlen n - 149)"
    by (simp add: power_int_diff)
  also have "\<dots> \<le> 2 powi (float_exponent x + 1)"
    by (rule power_int_increasing) (simp_all add: float_exponent_def n_def)
  finally show ?thesis .
qed

lemma float_exponent_lower:
  assumes "2 powi k \<le> \<bar>x\<bar>"
  shows "k \<le> float_exponent x"
proof (cases "k \<le> - 126")
  case True
  then show ?thesis using float_exponent_ge[of x] by linarith
next
  case False
  define n where "n = \<lfloor>\<bar>x\<bar> * 2 ^ 149\<rfloor>"
  have k: "0 \<le> k + 149" using False by simp
  have "(2::real) powi (k + 149) = 2 powi k * 2 powi 149" by (simp add: power_int_add)
  also have "\<dots> \<le> \<bar>x\<bar> * 2 powi 149" using assms by simp
  finally have "of_int (2 ^ nat (k + 149)) \<le> \<bar>x\<bar> * 2 ^ 149"
    using k by (simp add: power_int_def)
  then have "2 ^ nat (k + 149) \<le> n" unfolding n_def by (simp add: le_floor_iff)
  moreover have "nat (k + 150) - 1 = nat (k + 149)" using k by simp
  ultimately have "k + 150 \<le> bitlen n"
    unfolding bitlen_ge_iff_power by simp
  then show ?thesis by (simp add: float_exponent_def n_def)
qed

lemma float_exponent_normal:
  assumes "- 126 < float_exponent x"
  shows "2 powi (float_exponent x) \<le> \<bar>x\<bar>"
proof -
  define n where "n = \<lfloor>\<bar>x\<bar> * 2 ^ 149\<rfloor>"
  from assms have e: "float_exponent x = bitlen n - 150" and b: "24 < bitlen n"
    by (simp_all add: float_exponent_def n_def max_def split: if_splits)
  then have n0: "0 < n" using bitlen_eq_zero_iff[of n] by (cases "0 < n") auto
  have "(2::real) powi (bitlen n - 1) = of_int (2 ^ nat (bitlen n - 1))"
    using b by (simp add: power_int_def)
  also have "\<dots> \<le> of_int n"
    using bitlen_bounds[OF n0] by (metis of_int_le_iff)
  also have "\<dots> \<le> \<bar>x\<bar> * 2 ^ 149" unfolding n_def by simp
  finally have "(2::real) powi (bitlen n - 1) / 2 powi 149 \<le> \<bar>x\<bar>"
    by (simp add: pos_divide_le_eq)
  then show ?thesis
    by (simp add: e power_int_diff)
qed

lemma float_exponent_eq:
  assumes "2 powi k \<le> \<bar>x\<bar>" and "\<bar>x\<bar> < 2 powi (k + 1)"
  shows "float_exponent x = max (- 126) k"
proof (rule antisym)
  show "max (- 126) k \<le> float_exponent x"
    using float_exponent_lower[OF assms(1)] float_exponent_ge[of x] by simp
  show "float_exponent x \<le> max (- 126) k"
  proof (cases "- 126 < float_exponent x")
    case True
    have "(2::real) powi (float_exponent x) < 2 powi (k + 1)"
      using float_exponent_normal[OF True] assms(2) by linarith
    then have "float_exponent x < k + 1"
      by (rule powi2_less_imp)
    then show ?thesis by simp
  next
    case False
    then show ?thesis by simp
  qed
qed


lemma binary32_minus: "binary32 (- x) = - binary32 x"
  by (simp add: binary32_def Let_def round_to_even_minus)

lemma binary32_zero [simp]: "binary32 0 = 0"
  using round_to_even_of_int[of 0] by (simp add: binary32_def)

lemma binary32_integral_quotient:
  assumes "x / 2 powi (float_exponent x - 23) = of_int i"
  shows "binary32 x = x"
proof -
  have "binary32 x = of_int i * 2 powi (float_exponent x - 23)"
    using assms by (simp add: binary32_def Let_def)
  also have "\<dots> = x" using assms[symmetric] by simp
  finally show ?thesis .
qed

lemma binary32_representable:
  assumes m: "\<bar>m\<bar> \<le> 2 ^ 24" and j: "- 149 \<le> j"
  shows "binary32 (of_int m * 2 powi j) = of_int m * 2 powi j"
proof (cases "m = 0")
  case True
  then show ?thesis by simp
next
  case False
  define x :: real where "x = of_int m * 2 powi j"
  define E where "E = float_exponent x"
  have ax: "\<bar>x\<bar> = of_int \<bar>m\<bar> * 2 powi j" by (simp add: x_def abs_mult)
  have q: "x / 2 powi (E - 23) = of_int m * 2 powi (j - E + 23)"
    by (simp add: x_def power_int_diff power_int_add field_simps)
  show ?thesis
  proof (cases "\<bar>m\<bar> = 2 ^ 24")
    case True
    have "\<bar>x\<bar> = 2 powi 24 * 2 powi j" by (simp add: ax True)
    then have p: "\<bar>x\<bar> = 2 powi (j + 24)" by (simp add: power_int_add)
    have "\<bar>x\<bar> < 2 powi (j + 24 + 1)"
      unfolding p by (rule power_int_strict_increasing) simp_all
    then have "E = max (- 126) (j + 24)"
      unfolding E_def using p by (intro float_exponent_eq) simp_all
    then have e: "j - E + 23 = - 1" using j by simp
    from True have "m = 2 * 2 ^ 23 \<or> m = 2 * (- (2 ^ 23))" by (simp add: abs_if split: if_splits)
    then obtain h where h: "m = 2 * h" by blast
    have "x / 2 powi (E - 23) = of_int h"
      by (simp add: q e h power_int_minus)
    then show ?thesis
      unfolding x_def[symmetric] E_def by (rule binary32_integral_quotient)
  next
    case ne: False
    with m have lt: "\<bar>m\<bar> < 2 ^ 24" by simp
    have t: "0 \<le> j - E + 23"
    proof (cases "- 126 < E")
      case True
      have "2 powi E \<le> \<bar>x\<bar>" using float_exponent_normal[of x] True by (simp add: E_def)
      also have "\<bar>x\<bar> < 2 powi 24 * 2 powi j"
        unfolding ax using lt by (simp add: of_int_less_numeral_power_cancel_iff)
      also have "\<dots> = 2 powi (j + 24)" by (simp add: power_int_add)
      finally have "E < j + 24" by (rule powi2_less_imp)
      then show ?thesis by simp
    next
      case False
      then have "E = - 126" using float_exponent_ge[of x] by (simp add: E_def)
      then show ?thesis using j by simp
    qed
    have "(2::real) powi (j - E + 23) = of_int (2 ^ nat (j - E + 23))"
      using t by (simp add: power_int_def)
    then have "x / 2 powi (E - 23) = of_int (m * 2 ^ nat (j - E + 23))"
      by (simp add: q)
    then show ?thesis
      unfolding x_def[symmetric] E_def by (rule binary32_integral_quotient)
  qed
qed

lemma binary32_of_int: "\<bar>m\<bar> \<le> 2 ^ 24 \<Longrightarrow> binary32 (of_int m) = of_int m"
  using binary32_representable[of m 0] by simp

lemma binary32_idem: "binary32 (binary32 x) = binary32 x"
proof -
  define E where "E = float_exponent x"
  define r where "r = round_to_even (x / 2 powi (E - 23))"
  have b: "binary32 x = of_int r * 2 powi (E - 23)"
    by (simp add: binary32_def Let_def r_def E_def)
  have "\<bar>x\<bar> < 2 powi (E + 1)" unfolding E_def by (rule float_exponent_upper)
  then have "\<bar>x\<bar> / 2 powi (E - 23) < 2 powi (E + 1) / 2 powi (E - 23)"
    by (simp add: divide_strict_right_mono)
  also have "2 powi (E + 1) / 2 powi (E - 23) = (2::real) powi 24"
    by (simp flip: power_int_diff)
  finally have "\<bar>x / 2 powi (E - 23)\<bar> \<le> of_int (2 ^ 24)"
    by (simp add: abs_divide)
  then have "\<bar>r\<bar> \<le> 2 ^ 24" unfolding r_def by (rule round_to_even_bound)
  moreover have "- 149 \<le> E - 23" using float_exponent_ge[of x] by (simp add: E_def)
  ultimately show ?thesis unfolding b by (rule binary32_representable)
qed

lemma binary32_neg_one_times: "binary32 (- 1 * binary32 x) = - binary32 x"
  by (simp add: binary32_minus binary32_idem)

lemma int32_id: "- (2 ^ 31) \<le> k \<Longrightarrow> k < 2 ^ 31 \<Longrightarrow> int32 k = k"
  by (simp add: int32_def)

lemma int32_mod: "int32 a mod 2 ^ 32 = a mod 2 ^ 32"
proof -
  have "int32 a mod 2 ^ 32 = ((a + 2 ^ 31) mod 2 ^ 32 - 2 ^ 31) mod 2 ^ 32"
    by (simp add: int32_def)
  also have "\<dots> = ((a + 2 ^ 31) - 2 ^ 31) mod 2 ^ 32"
    by (rule mod_diff_left_eq)
  finally show ?thesis by simp
qed

lemma int32_cong: "a mod 2 ^ 32 = b mod 2 ^ 32 \<Longrightarrow> int32 a = int32 b"
  unfolding int32_def by (metis mod_add_left_eq)

lemma int32_add_left [simp]: "int32 (int32 a + b) = int32 (a + b)"
  by (rule int32_cong) (metis int32_mod mod_add_left_eq)

lemma int32_add_right [simp]: "int32 (a + int32 b) = int32 (a + b)"
  by (rule int32_cong) (metis int32_mod mod_add_right_eq)

lemma int32_mult_left [simp]: "int32 (int32 a * b) = int32 (a * b)"
  by (rule int32_cong) (metis int32_mod mod_mult_left_eq)

lemma int32_mult_right [simp]: "int32 (a * int32 b) = int32 (a * b)"
  by (rule int32_cong) (metis int32_mod mod_mult_right_eq)

lemma example_env_simps [simp]:
  "tileWidth example_env = 256" "tileHeight example_env = 256"
  "TILE_PREFETCH_DISTANCE example_env = 1" "TILE_PREFETCH_RATIO example_env = 6 / 5"
  "ZoomManager_swapPages example_env = (\<lambda>z. z)"
  "ZoomManager_processNewScale example_env = (\<lambda>t scale z. z)"
  "currentTime example_env = 0"
  "BaseLayerAndroid_drawGL example_env = (\<lambda>s. (True, []))"
  by (simp_all add: example_env_def)

lemma example_layer_simps [simp]:
  "layer_id (example_layer n) = n" "children (example_layer n) = []"
  "content_width (example_layer n) = 100" "content_height (example_layer n) = 100"
  "backgroundColor (example_layer n) = SK_ColorWHITE"
  by (simp_all add: example_layer_def)

section \<open>Evaluating the examples\<close>

lemmas eval_defs =
  GLWebViewState_new_def example_state_def example_dirty_state_def example_switch_state_def
  setBaseLayer_def inval_def invalRegion_def SkRegion_Iterator_def emit_def frontPage_def Let_def
  SkRegion_setEmpty_def SkRect_setEmpty_def SkIRect_set_def mkIntRect_def IntRect_isEmpty_def
  lockBaseLayerUpdate_def LOCKED_def

lemma example_state_fields:
  "m_currentBaseLayer example_state = Some (example_layer 1)"
  "m_baseLayer example_state = Some (example_layer 1)"
  "m_baseLayerUpdate example_state"
  "\<not> invertedScreenSwitch example_state"
  "m_frameworkInval example_state = mkIntRect 0 0 0 0"
  "m_previouslyUsedRoot example_state = None"
  by (simp_all add: eval_defs)

lemma example_dirty_state_fields:
  "m_currentBaseLayer example_dirty_state = Some (example_layer 1)"
  "m_baseLayer example_dirty_state = Some (example_layer 1)"
  "m_baseLayerUpdate example_dirty_state"
  "\<not> invertedScreenSwitch example_dirty_state"
  "m_frameworkInval example_dirty_state = mkIntRect 0 0 10 10"
  "m_previouslyUsedRoot example_dirty_state = None"
  "m_viewport example_dirty_state = SkRect_setEmpty"
  "m_zoomManager example_dirty_state = \<lparr>currentScale = 1, futureScale = 1\<rparr>"
  by (simp_all add: eval_defs)


lemma example_switch_state_fields:
  "m_currentBaseLayer example_switch_state = Some (example_layer 1)"
  "m_baseLayer example_switch_state = Some (example_layer 1)"
  "invertedScreenSwitch example_switch_state"
  "m_frameworkInval example_switch_state = mkIntRect 0 0 10 10"
  by (simp_all add: eval_defs)

lemma drawGL_prepare_example:
  assumes "m_currentBaseLayer s = Some (example_layer n)" "m_baseLayer s = Some (example_layer n)"
  shows "drawGL_prepare e vp 1 s = Ready (example_layer n) None (ready_state (drawGL_prepare e vp 1 s))"
    "m_frameworkInval (ready_state (drawGL_prepare e vp 1 s)) = m_frameworkInval s"
    "m_frameworkLayersInval (ready_state (drawGL_prepare e vp 1 s)) = mkIntRect 0 0 0 0"
    "invertedScreenSwitch (ready_state (drawGL_prepare e vp 1 s)) = invertedScreenSwitch s"
  using assms
  by (simp_all add: drawGL_prepare_def Let_def scale_corrupted_def
      MIN_SCALE_WARNING_def MAX_SCALE_WARNING_def resetLayersDirtyArea_def)

lemma drawGL_draw_example:
  assumes "BaseLayerAndroid_drawGL e = (\<lambda>s. (b, []))"
  shows "fst (drawGL_draw e r vp w t c sc bl cr s) = b"
  "m_frameworkInval (snd (drawGL_draw e r vp w t c sc bl cr s)) = m_frameworkInval s"
  "m_frameworkLayersInval (snd (drawGL_draw e r vp w t c sc bl cr s)) = m_frameworkLayersInval s"
  "invertedScreenSwitch (snd (drawGL_draw e r vp w t c sc bl cr s)) = invertedScreenSwitch s"
  using assms
  by (simp_all add: drawGL_draw_def setupDrawing_def setViewport_def Let_def split: prod.splits)

lemma example_inflate:
  "FloatRect_inflate 1 (rectInInvScreenCoord example_env (mkIntRect 0 0 10 10))
     = \<lparr>f_x = - 1, f_y = - 1, f_width = 12, f_height = 12\<rparr>"
  by (simp add: example_env_def FloatRect_inflate_def mkIntRect_def)

lemma static_cast_int_numeral [simp]:
  "static_cast_int (numeral k) = numeral k" "static_cast_int (- numeral k) = - numeral k"
  "static_cast_int 0 = 0" "static_cast_int 1 = 1" "static_cast_int (- 1) = - 1"
  using static_cast_int_of_int[of "numeral k"] static_cast_int_of_int[of "- numeral k"]
    static_cast_int_of_int[of 0] static_cast_int_of_int[of 1] static_cast_int_of_int[of "- 1"]
  by simp_all

lemma drawGL_Ready:
  "drawGL_prepare e vp sc s = Ready bl cr s6 \<Longrightarrow>
   drawGL e rect vp ir wr tbh clip sc s =
     drawGL_inval e rect ir (fst (drawGL_draw e rect vp wr tbh clip sc bl cr s6))
       (snd (drawGL_draw e rect vp wr tbh clip sc bl cr s6))"
  by (simp add: drawGL_def split_beta)

lemma drawGL_inval_eq:
  "drawGL_inval e rect invalRect ret0 s7 =
     (if ret0 \<or> invertedScreenSwitch s7 then
        Returned True
          (if IntRect_isEmpty (m_frameworkInval s7) \<or> invertedScreenSwitch s7 then mkIntRect 0 0 0 0
           else
             (let f = FloatRect_inflate 1 (rectInInvScreenCoord e (m_frameworkInval s7));
                  r = IntRect_unite
                        (mkIntRect (static_cast_int (f_x f)) (static_cast_int (f_y f))
                           (static_cast_int (f_width f)) (static_cast_int (f_height f)))
                        (m_frameworkLayersInval s7)
              in if IntRect_intersects r rect then r else mkIntRect 0 0 0 0))
          (s7\<lparr>invertedScreenSwitch := False\<rparr>)
      else Returned False invalRect (s7\<lparr>m_frameworkInval := mkIntRect 0 0 0 0\<rparr>))"
  by (simp add: drawGL_inval_def Let_def resetFrameworkInval_def)

lemma is_Returned_drawGL_inval: "is_Returned (drawGL_inval e rect invalRect ret0 s7)"
  by (simp add: drawGL_inval_eq)

section \<open>Properties of the dirty union\<close>

lemma inval_frameworkInval:
  "m_baseLayerUpdate s \<Longrightarrow>
   m_frameworkInval (inval R s) =
     (if IntRect_isEmpty R then m_frameworkInval s
      else if IntRect_isEmpty (m_frameworkInval s) then R
      else IntRect_unite (m_frameworkInval s) R)"
  by (simp add: inval_def emit_def Let_def)

lemma inval_baseLayerUpdate: "m_baseLayerUpdate (inval R s) = m_baseLayerUpdate s"
  by (simp add: inval_def emit_def Let_def)

lemma IntRect_unite_nonempty:
  "\<not> IntRect_isEmpty a \<Longrightarrow> \<not> IntRect_isEmpty b \<Longrightarrow> \<not> IntRect_isEmpty (IntRect_unite a b)"
  by (auto simp: IntRect_unite_def IntRect_isEmpty_def mkIntRect_def IntRect_maxX_def IntRect_maxY_def Let_def)

lemma IntRect_unite_commute:
  "\<not> IntRect_isEmpty a \<Longrightarrow> \<not> IntRect_isEmpty b \<Longrightarrow> IntRect_unite a b = IntRect_unite b a"
  by (simp add: IntRect_unite_def mkIntRect_def Let_def min.commute max.commute)

lemma IntRect_unite_assoc:
  "\<not> IntRect_isEmpty a \<Longrightarrow> \<not> IntRect_isEmpty b \<Longrightarrow> \<not> IntRect_isEmpty c \<Longrightarrow>
   IntRect_unite (IntRect_unite a b) c = IntRect_unite a (IntRect_unite b c)"
  using IntRect_unite_nonempty[of a b] IntRect_unite_nonempty[of b c]
  apply (simp add: IntRect_unite_def[of "IntRect_unite a b" c] IntRect_unite_def[of a "IntRect_unite b c"])
  apply (simp add: IntRect_unite_def mkIntRect_def Let_def IntRect_maxX_def IntRect_maxY_def)
  apply (simp add: min.assoc max.assoc)
  done

lemma IntRect_unite_points_upper:
  assumes "\<not> IntRect_isEmpty a" "\<not> IntRect_isEmpty b"
  shows "IntRect_points a \<union> IntRect_points b \<subseteq> IntRect_points (IntRect_unite a b)"
  using assms
  by (auto simp: IntRect_unite_def IntRect_points_def IntRect_isEmpty_def mkIntRect_def
        IntRect_maxX_def IntRect_maxY_def Let_def)

lemma IntRect_points_corners:
  assumes "\<not> IntRect_isEmpty a" "IntRect_points a \<subseteq> IntRect_points u"
  shows "m_x u \<le> m_x a \<and> m_y u \<le> m_y a \<and> IntRect_maxX a \<le> IntRect_maxX u \<and> IntRect_maxY a \<le> IntRect_maxY u"
proof -
  have lo: "(m_x a, m_y a) \<in> IntRect_points a"
    using assms(1) by (simp add: IntRect_points_def IntRect_isEmpty_def IntRect_maxX_def IntRect_maxY_def)
  have hi: "(IntRect_maxX a - 1, IntRect_maxY a - 1) \<in> IntRect_points a"
    using assms(1) by (simp add: IntRect_points_def IntRect_isEmpty_def IntRect_maxX_def IntRect_maxY_def)
  from lo hi assms(2) have "(m_x a, m_y a) \<in> IntRect_points u"
    and "(IntRect_maxX a - 1, IntRect_maxY a - 1) \<in> IntRect_points u" by auto
  then show ?thesis by (simp add: IntRect_points_def)
qed

lemma IntRect_unite_points_least:
  assumes "\<not> IntRect_isEmpty a" "\<not> IntRect_isEmpty b"
    and "IntRect_points a \<union> IntRect_points b \<subseteq> IntRect_points u"
  shows "IntRect_points (IntRect_unite a b) \<subseteq> IntRect_points u"
proof -
  from assms have ca: "m_x u \<le> m_x a \<and> m_y u \<le> m_y a \<and> IntRect_maxX a \<le> IntRect_maxX u \<and> IntRect_maxY a \<le> IntRect_maxY u"
    by (intro IntRect_points_corners) auto
  from assms have cb: "m_x u \<le> m_x b \<and> m_y u \<le> m_y b \<and> IntRect_maxX b \<le> IntRect_maxX u \<and> IntRect_maxY b \<le> IntRect_maxY u"
    by (intro IntRect_points_corners) auto
  show ?thesis
    using ca cb assms(1,2)
    by (auto simp: IntRect_unite_def IntRect_points_def mkIntRect_def Let_def
          IntRect_maxX_def IntRect_maxY_def)
qed

lemma IntRect_points_empty: "IntRect_isEmpty a \<Longrightarrow> IntRect_points a = {}"
  by (auto simp: IntRect_points_def IntRect_isEmpty_def IntRect_maxX_def IntRect_maxY_def)

lemma new_unlocked [simp]: "m_baseLayerUpdate GLWebViewState_new"
  by (simp add: GLWebViewState_new_def)

text \<open>
  C8, as stated: merging any rectangle \<open>R\<close> into an empty base-content union yields
  exactly \<open>R\<close>. This fails for an empty \<open>R\<close>: \<^verbatim>\<open>inval\<close> skips the union for an empty
  rectangle, so a zero-sized rectangle at (5,5) leaves the union of a fresh state as
  it was.
\<close>
theorem inval_empty_rect_counterexample:
  "m_baseLayerUpdate GLWebViewState_new
   \<and> IntRect_isEmpty (m_frameworkInval GLWebViewState_new)
   \<and> m_frameworkInval (inval (mkIntRect 5 5 0 0) GLWebViewState_new) \<noteq> mkIntRect 5 5 0 0"
  by (simp add: GLWebViewState_new_def inval_def emit_def Let_def IntRect_isEmpty_def mkIntRect_def)

text \<open>
  C8, amended: while the base layer is not locked, \<^verbatim>\<open>inval\<close> with a non-empty
  rectangle \<open>R\<close> and an empty base-content union makes the union exactly \<open>R\<close>; an empty
  \<open>R\<close> leaves the union unchanged; with a non-empty union the new union encloses the
  old union and \<open>R\<close> and is contained in every rectangle that encloses both; and
  the union after two merges does not depend on their order.
\<close>
theorem inval_merges_base_union:
  assumes "m_baseLayerUpdate s"
  shows "(IntRect_isEmpty (m_frameworkInval s) \<and> \<not> IntRect_isEmpty R
            \<longrightarrow> m_frameworkInval (inval R s) = R)
       \<and> (IntRect_isEmpty R \<longrightarrow> m_frameworkInval (inval R s) = m_frameworkInval s)
       \<and> (\<not> IntRect_isEmpty (m_frameworkInval s) \<longrightarrow>
            IntRect_points (m_frameworkInval s) \<union> IntRect_points R
              \<subseteq> IntRect_points (m_frameworkInval (inval R s))
            \<and> (\<forall>U. IntRect_points (m_frameworkInval s) \<union> IntRect_points R \<subseteq> IntRect_points U
                  \<longrightarrow> IntRect_points (m_frameworkInval (inval R s)) \<subseteq> IntRect_points U))
       \<and> m_frameworkInval (inval R' (inval R s)) = m_frameworkInval (inval R (inval R' s))"
proof (intro conjI impI allI)
  assume "IntRect_isEmpty (m_frameworkInval s) \<and> \<not> IntRect_isEmpty R"
  then show "m_frameworkInval (inval R s) = R"
    using assms by (simp add: inval_frameworkInval)
next
  assume "IntRect_isEmpty R"
  then show "m_frameworkInval (inval R s) = m_frameworkInval s"
    using assms by (simp add: inval_frameworkInval)
next
  assume ne: "\<not> IntRect_isEmpty (m_frameworkInval s)"
  show "IntRect_points (m_frameworkInval s) \<union> IntRect_points R
          \<subseteq> IntRect_points (m_frameworkInval (inval R s))"
  proof (cases "IntRect_isEmpty R")
    case True
    then show ?thesis using assms by (simp add: inval_frameworkInval IntRect_points_empty)
  next
    case False
    then show ?thesis
      using assms ne IntRect_unite_points_upper[of "m_frameworkInval s" R]
      by (simp add: inval_frameworkInval)
  qed
next
  fix U
  assume ne: "\<not> IntRect_isEmpty (m_frameworkInval s)"
    and up: "IntRect_points (m_frameworkInval s) \<union> IntRect_points R \<subseteq> IntRect_points U"
  show "IntRect_points (m_frameworkInval (inval R s)) \<subseteq> IntRect_points U"
  proof (cases "IntRect_isEmpty R")
    case True
    then show ?thesis using assms up by (simp add: inval_frameworkInval)
  next
    case False
    then show ?thesis
      using assms ne up IntRect_unite_points_least[of "m_frameworkInval s" R U]
      by (simp add: inval_frameworkInval)
  qed
next
  let ?A = "m_frameworkInval s"
  have u1: "m_baseLayerUpdate (inval R s)" and u2: "m_baseLayerUpdate (inval R' s)"
    using assms by (simp_all add: inval_baseLayerUpdate)
  show "m_frameworkInval (inval R' (inval R s)) = m_frameworkInval (inval R (inval R' s))"
  proof (cases "IntRect_isEmpty R \<or> IntRect_isEmpty R'")
    case True
    then show ?thesis
      using assms u1 u2 by (auto simp: inval_frameworkInval)
  next
    case False
    then have r: "\<not> IntRect_isEmpty R" and r': "\<not> IntRect_isEmpty R'" by auto
    show ?thesis
    proof (cases "IntRect_isEmpty ?A")
      case True
      then show ?thesis
        using assms u1 u2 r r' IntRect_unite_commute[of R R']
        by (simp add: inval_frameworkInval)
    next
      case False
      have "IntRect_unite (IntRect_unite ?A R) R' = IntRect_unite ?A (IntRect_unite R R')"
        using False r r' by (rule IntRect_unite_assoc)
      also have "\<dots> = IntRect_unite ?A (IntRect_unite R' R)"
        using r r' by (simp add: IntRect_unite_commute)
      also have "\<dots> = IntRect_unite (IntRect_unite ?A R') R"
        using False r r' by (simp add: IntRect_unite_assoc)
      finally show ?thesis
        using assms u1 u2 r r' False IntRect_unite_nonempty[of ?A R] IntRect_unite_nonempty[of ?A R']
        by (simp add: inval_frameworkInval)
    qed
  qed
qed

theorem inval_merges_base_union_witness:
  "m_baseLayerUpdate GLWebViewState_new
   \<and> IntRect_isEmpty (m_frameworkInval GLWebViewState_new)
   \<and> \<not> IntRect_isEmpty (mkIntRect 1 2 3 4)
   \<and> m_frameworkInval (inval (mkIntRect 1 2 3 4) GLWebViewState_new) = mkIntRect 1 2 3 4
   \<and> IntRect_isEmpty (mkIntRect 5 5 0 0)
   \<and> m_frameworkInval (inval (mkIntRect 5 5 0 0) GLWebViewState_new)
       = m_frameworkInval GLWebViewState_new
   \<and> \<not> IntRect_isEmpty (m_frameworkInval (inval (mkIntRect 1 2 3 4) GLWebViewState_new))
   \<and> IntRect_points (mkIntRect 1 2 3 4) \<union> IntRect_points (mkIntRect 10 0 2 2)
       \<subseteq> IntRect_points
           (m_frameworkInval (inval (mkIntRect 10 0 2 2) (inval (mkIntRect 1 2 3 4) GLWebViewState_new)))
   \<and> m_frameworkInval (inval (mkIntRect 10 0 2 2) (inval (mkIntRect 1 2 3 4) GLWebViewState_new))
       = mkIntRect 1 0 11 6"
proof -
  have u: "m_baseLayerUpdate GLWebViewState_new" by simp
  have e: "IntRect_isEmpty (m_frameworkInval GLWebViewState_new)"
    by (simp add: GLWebViewState_new_def IntRect_isEmpty_def mkIntRect_def)
  have n: "\<not> IntRect_isEmpty (mkIntRect 1 2 3 4)"
    by (simp add: IntRect_isEmpty_def mkIntRect_def)
  have z: "IntRect_isEmpty (mkIntRect 5 5 0 0)"
    by (simp add: IntRect_isEmpty_def mkIntRect_def)
  have a: "m_frameworkInval (inval (mkIntRect 1 2 3 4) GLWebViewState_new) = mkIntRect 1 2 3 4"
    using inval_merges_base_union[OF u, of "mkIntRect 1 2 3 4"] e n by simp
  have b: "m_frameworkInval (inval (mkIntRect 5 5 0 0) GLWebViewState_new)
       = m_frameworkInval GLWebViewState_new"
    using inval_merges_base_union[OF u, of "mkIntRect 5 5 0 0"] z by simp
  have u': "m_baseLayerUpdate (inval (mkIntRect 1 2 3 4) GLWebViewState_new)"
    by (simp add: inval_baseLayerUpdate)
  have c: "IntRect_points (mkIntRect 1 2 3 4) \<union> IntRect_points (mkIntRect 10 0 2 2)
       \<subseteq> IntRect_points
           (m_frameworkInval (inval (mkIntRect 10 0 2 2) (inval (mkIntRect 1 2 3 4) GLWebViewState_new)))"
    using inval_merges_base_union[OF u', of "mkIntRect 10 0 2 2"] a n by simp
  have d: "m_frameworkInval (inval (mkIntRect 10 0 2 2) (inval (mkIntRect 1 2 3 4) GLWebViewState_new))
       = mkIntRect 1 0 11 6"
    using u' a by (simp add: inval_frameworkInval IntRect_unite_def IntRect_isEmpty_def mkIntRect_def
        IntRect_maxX_def IntRect_maxY_def Let_def)
  show ?thesis using u e n z a b c d by simp
qed

section \<open>The two tiled pages\<close>

text \<open>
  C6: every \<^verbatim>\<open>swapPages\<close> call exchanges the front and the back page, leaves the two
  page pointers as they are, and makes exactly two calls: the notification of the
  zoom manager and one \<^verbatim>\<open>discardTextures\<close>, on the page that is the back page after
  the flip (the front page before it). Both calls are made when the flip has already
  happened: the front page visible at the time of each call is the new front page.
\<close>
theorem swapPages_flips_then_evicts:
  "frontPage (swapPages e s) = backPage s
   \<and> backPage (swapPages e s) = frontPage s
   \<and> m_tiledPageA (swapPages e s) = m_tiledPageA s
   \<and> m_tiledPageB (swapPages e s) = m_tiledPageB s
   \<and> calls (swapPages e s) =
       calls s @ [(ZoomManager_swapPages_call, frontPage (swapPages e s)),
                  (TiledPage_discardTextures (backPage (swapPages e s)), frontPage (swapPages e s))]"
  by (simp add: swapPages_def Let_def frontPage_def backPage_def emit_def)

lemma pages_inval [simp]:
  "m_tiledPageA (inval r s) = m_tiledPageA s" "m_tiledPageB (inval r s) = m_tiledPageB s"
  by (simp_all add: inval_def Let_def)

lemma pages_invalRegion [simp]:
  "m_tiledPageA (invalRegion rgn s) = m_tiledPageA s"
  "m_tiledPageB (invalRegion rgn s) = m_tiledPageB s"
  unfolding invalRegion_def SkRegion_Iterator_def
  by (induction rgn arbitrary: s) simp_all

lemma pages_setBaseLayer [simp]:
  "m_tiledPageA (setBaseLayer l rgn i f s) = m_tiledPageA s"
  "m_tiledPageB (setBaseLayer l rgn i f s) = m_tiledPageB s"
  by (simp_all add: setBaseLayer_def Let_def split: option.splits)

lemma pages_unlock [simp]:
  "m_tiledPageA (unlockBaseLayerUpdate s) = m_tiledPageA s"
  "m_tiledPageB (unlockBaseLayerUpdate s) = m_tiledPageB s"
  by (simp_all add: unlockBaseLayerUpdate_def Let_def)

lemma pages_setExtra [simp]:
  "m_tiledPageA (setExtra l p r a s) = m_tiledPageA s"
  "m_tiledPageB (setExtra l p r a s) = m_tiledPageB s"
  by (simp_all add: setExtra_def Let_def)

lemma pages_setViewport [simp]:
  "m_tiledPageA (setViewport e v sc s) = m_tiledPageA s"
  "m_tiledPageB (setViewport e v sc s) = m_tiledPageB s"
  by (simp_all add: setViewport_def Let_def)

lemma pages_swapPages [simp]:
  "m_tiledPageA (swapPages e s) = m_tiledPageA s"
  "m_tiledPageB (swapPages e s) = m_tiledPageB s"
  by (simp_all add: swapPages_def Let_def)

lemma pages_apply_op [simp]:
  "m_tiledPageA (apply_op e op s) = m_tiledPageA s"
  "m_tiledPageB (apply_op e op s) = m_tiledPageB s"
  by (cases op; simp add: setRings_def lockBaseLayerUpdate_def resetRings_def
        resetFrameworkInval_def addDirtyArea_def resetLayersDirtyArea_def Let_def)+

lemma pages_fold_apply_op [simp]:
  "m_tiledPageA (fold (apply_op e) ops s) = m_tiledPageA s"
  "m_tiledPageB (fold (apply_op e) ops s) = m_tiledPageB s"
  by (induction ops arbitrary: s) simp_all

lemma pages_drawGL_draw:
  "drawGL_draw e rect vp wr tbh clip sc bl cr s = (r, s') \<Longrightarrow>
   m_tiledPageA s' = m_tiledPageA s \<and> m_tiledPageB s' = m_tiledPageB s"
  by (auto simp: drawGL_draw_def setupDrawing_def Let_def split: prod.splits if_splits)

lemma pages_drawGL_inval:
  "drawGL_inval e rect ir r0 s = Returned r i s' \<Longrightarrow>
   m_tiledPageA s' = m_tiledPageA s \<and> m_tiledPageB s' = m_tiledPageB s"
  by (auto simp: drawGL_inval_def resetFrameworkInval_def Let_def split: prod.splits if_splits)

lemma pages_drawGL_prepare:
  "drawGL_prepare e vp sc s = NoBaseLayer s' \<or> drawGL_prepare e vp sc s = Crashed s'
     \<or> drawGL_prepare e vp sc s = Ready bl cr s' \<Longrightarrow>
   m_tiledPageA s' = m_tiledPageA s \<and> m_tiledPageB s' = m_tiledPageB s"
  by (auto simp: drawGL_prepare_def Let_def resetLayersDirtyArea_def split: option.splits if_splits)

lemma pages_drawGL:
  assumes "drawGL e rect vp ir wr tbh clip sc s = Returned r i s'"
  shows "m_tiledPageA s' = m_tiledPageA s \<and> m_tiledPageB s' = m_tiledPageB s"
proof (cases "drawGL_prepare e vp sc s")
  case (NoBaseLayer s2)
  then show ?thesis
    using assms pages_drawGL_prepare[of e vp sc s s2] by (simp add: drawGL_def)
next
  case (Crashed s6)
  then show ?thesis using assms by (simp add: drawGL_def)
next
  case (Ready bl cr s6)
  obtain r0 s7 where d: "drawGL_draw e rect vp wr tbh clip sc bl cr s6 = (r0, s7)"
    by (cases "drawGL_draw e rect vp wr tbh clip sc bl cr s6")
  from Ready d assms have i: "drawGL_inval e rect ir r0 s7 = Returned r i s'"
    by (simp add: drawGL_def)
  show ?thesis
    using pages_drawGL_prepare[of e vp sc s s6 bl cr] Ready
      pages_drawGL_draw[OF d] pages_drawGL_inval[OF i]
    by simp
qed

lemma reachable_pages_fixed:
  "reachable s \<Longrightarrow>
   m_tiledPageA s = TiledPage FIRST_TILED_PAGE_ID \<and> m_tiledPageB s = TiledPage SECOND_TILED_PAGE_ID"
proof (induction rule: reachable.induct)
  case reachable_new
  show ?case by (simp add: GLWebViewState_new_def)
next
  case (reachable_op s e op)
  then show ?case by simp
next
  case (reachable_collaborators s z isc sw)
  then show ?case by simp
next
  case (reachable_drawGL s e rect viewport invalRect webViewRect titleBarHeight clip scale ret invalRect' s')
  then show ?case using pages_drawGL by metis
qed

text \<open>
  C10: in every reachable state the front and the back page are different, they are
  the two pages the constructor created, \<^verbatim>\<open>sibling\<close> maps each of them to the other
  and is an involution on them, and \<^verbatim>\<open>swapPages\<close> leads to a reachable state in which
  front and back are exchanged.
\<close>
theorem reachable_front_back_sibling:
  assumes "reachable s"
  shows "frontPage s \<noteq> backPage s
     \<and> {frontPage s, backPage s} = {TiledPage FIRST_TILED_PAGE_ID, TiledPage SECOND_TILED_PAGE_ID}
     \<and> sibling (frontPage s) s = backPage s
     \<and> sibling (backPage s) s = frontPage s
     \<and> sibling (sibling (frontPage s) s) s = frontPage s
     \<and> sibling (sibling (backPage s) s) s = backPage s
     \<and> frontPage (swapPages e s) = backPage s
     \<and> backPage (swapPages e s) = frontPage s
     \<and> reachable (swapPages e s)"
proof -
  have p: "m_tiledPageA s = TiledPage FIRST_TILED_PAGE_ID \<and> m_tiledPageB s = TiledPage SECOND_TILED_PAGE_ID"
    using assms by (rule reachable_pages_fixed)
  have r: "reachable (swapPages e s)"
    using reachable_op[OF assms, of e Op_swapPages] by simp
  show ?thesis
    using p r
    by (auto simp: frontPage_def backPage_def sibling_def swapPages_def Let_def emit_def
          FIRST_TILED_PAGE_ID_def SECOND_TILED_PAGE_ID_def)
qed

theorem reachable_front_back_sibling_witness:
  "reachable (swapPages example_env GLWebViewState_new)
   \<and> frontPage (swapPages example_env GLWebViewState_new) = TiledPage SECOND_TILED_PAGE_ID
   \<and> backPage (swapPages example_env GLWebViewState_new) = TiledPage FIRST_TILED_PAGE_ID
   \<and> sibling (frontPage (swapPages example_env GLWebViewState_new))
        (swapPages example_env GLWebViewState_new)
       = backPage (swapPages example_env GLWebViewState_new)
   \<and> frontPage (swapPages example_env (swapPages example_env GLWebViewState_new))
       = TiledPage FIRST_TILED_PAGE_ID"
proof -
  have r: "reachable (swapPages example_env GLWebViewState_new)"
    using reachable_op[OF reachable_new, of example_env Op_swapPages] by simp
  have f: "frontPage (swapPages example_env GLWebViewState_new) = TiledPage SECOND_TILED_PAGE_ID"
    by (simp add: swapPages_def Let_def frontPage_def emit_def GLWebViewState_new_def)
  have b: "backPage (swapPages example_env GLWebViewState_new) = TiledPage FIRST_TILED_PAGE_ID"
    by (simp add: swapPages_def Let_def backPage_def emit_def GLWebViewState_new_def)
  show ?thesis
    using reachable_front_back_sibling[OF r, of example_env] r f b by simp
qed

section \<open>The viewport\<close>

text \<open>
  C9: a \<^verbatim>\<open>setViewport\<close> call with the recorded viewport and the zoom manager's
  future scale changes nothing: the state is the same, in particular the tile
  bounds, the scroll direction flags and the recorded calls (so no texture budget
  is sent and no page is asked to update its tile size).
\<close>
theorem setViewport_same_is_noop:
  assumes "m_viewport s = viewport \<and> futureScale (m_zoomManager s) = scale"
  shows "setViewport e viewport scale s = s
     \<and> m_viewportTileBounds (setViewport e viewport scale s) = m_viewportTileBounds s
     \<and> m_goingDown (setViewport e viewport scale s) = m_goingDown s
     \<and> m_goingLeft (setViewport e viewport scale s) = m_goingLeft s
     \<and> calls (setViewport e viewport scale s) = calls s"
  using assms by (simp add: setViewport_def)

theorem setViewport_same_is_noop_witness:
  "m_viewport (setViewport example_env \<lparr>fLeft = 0, fTop = 0, fRight = 512, fBottom = 512\<rparr> 1 GLWebViewState_new)
     = \<lparr>fLeft = 0, fTop = 0, fRight = 512, fBottom = 512\<rparr>
   \<and> futureScale (m_zoomManager
        (setViewport example_env \<lparr>fLeft = 0, fTop = 0, fRight = 512, fBottom = 512\<rparr> 1 GLWebViewState_new)) = 1
   \<and> setViewport example_env \<lparr>fLeft = 0, fTop = 0, fRight = 512, fBottom = 512\<rparr> 1
        (setViewport example_env \<lparr>fLeft = 0, fTop = 0, fRight = 512, fBottom = 512\<rparr> 1 GLWebViewState_new)
     = setViewport example_env \<lparr>fLeft = 0, fTop = 0, fRight = 512, fBottom = 512\<rparr> 1 GLWebViewState_new"
proof -
  let ?vp = "\<lparr>fLeft = 0, fTop = 0, fRight = 512, fBottom = 512\<rparr>"
  let ?s = "setViewport example_env ?vp 1 GLWebViewState_new"
  have h: "m_viewport ?s = ?vp \<and> futureScale (m_zoomManager ?s) = 1"
    by (simp add: setViewport_def Let_def emit_def GLWebViewState_new_def SkRect_setEmpty_def)
  show ?thesis
    using setViewport_same_is_noop[OF h, of example_env] h by simp
qed

lemma maxTextureCount_eq:
  "maxTextureCount e viewport scale =
     int32 ((viewMaxTileX e viewport scale + 2 * TILE_PREFETCH_DISTANCE e) *
            (viewMaxTileY e viewport scale + 2 * TILE_PREFETCH_DISTANCE e) * 2)"
  by (simp add: maxTextureCount_def mult.commute)

lemma viewMaxTileX_zero_width:
  assumes "fRight viewport = fLeft viewport"
  shows "viewMaxTileX e viewport scale = int32 (\<lceil>- binary32 (scale / tileWidth e)\<rceil> + 1)"
proof -
  have "binary32 (- 1) = - 1" using binary32_of_int[of "- 1"] by simp
  then show ?thesis
    using assms binary32_neg_one_times[of "scale / tileWidth e"]
    by (simp add: viewMaxTileX_def SkRect_width_def invTileContentWidth_def)
qed

lemma viewMaxTileY_zero_height:
  assumes "fBottom viewport = fTop viewport"
  shows "viewMaxTileY e viewport scale = int32 (\<lceil>- binary32 (scale / tileHeight e)\<rceil> + 1)"
proof -
  have "binary32 (- 1) = - 1" using binary32_of_int[of "- 1"] by simp
  then show ?thesis
    using assms binary32_neg_one_times[of "scale / tileHeight e"]
    by (simp add: viewMaxTileY_def SkRect_height_def invTileContentHeight_def)
qed

lemma count_of_ratio:
  fixes r :: real
  shows "0 \<le> r \<Longrightarrow> r < 1 \<Longrightarrow> int32 (\<lceil>- r\<rceil> + 1) = 1"
    and "2 \<le> r \<Longrightarrow> r < 2 ^ 31 \<Longrightarrow> int32 (\<lceil>- r\<rceil> + 1) < 0"
proof -
  assume "0 \<le> r" "r < 1"
  then have "\<lceil>- r\<rceil> = 0" by (simp add: ceiling_eq_iff)
  then show "int32 (\<lceil>- r\<rceil> + 1) = 1" by (simp add: int32_def)
next
  assume a: "2 \<le> r" "r < 2 ^ 31"
  have "- r \<le> of_int (- 2)" using a by simp
  then have u: "\<lceil>- r\<rceil> \<le> - 2" by (rule ceiling_le)
  have "of_int (- (2 ^ 31)) < - r" using a by simp
  then have l: "- (2 ^ 31) < \<lceil>- r\<rceil>" by (simp add: less_ceiling_iff)
  have "int32 (\<lceil>- r\<rceil> + 1) = \<lceil>- r\<rceil> + 1"
    using u l by (intro int32_id) linarith+
  then show "int32 (\<lceil>- r\<rceil> + 1) < 0" using u by linarith
qed

text \<open>
  C4, as stated: for a viewport of width or height zero the tile counts are clamped
  to zero, so that no negative tile count enters the budget. The code does not
  clamp: with tiles of 256, a viewport of width 0 and scale 1024 every float
  operation is exact, the count across is \<open>-3\<close> and the budget sent to the tiles
  manager is \<open>-2046\<close>.
\<close>
theorem setViewport_zero_width_counterexample:
  "SkRect_width \<lparr>fLeft = 0, fTop = 0, fRight = 0, fBottom = 256\<rparr> = 0
   \<and> budget_defined example_env \<lparr>fLeft = 0, fTop = 0, fRight = 0, fBottom = 256\<rparr> 1024
   \<and> viewMaxTileX example_env \<lparr>fLeft = 0, fTop = 0, fRight = 0, fBottom = 256\<rparr> 1024 = - 3
   \<and> calls (setViewport example_env \<lparr>fLeft = 0, fTop = 0, fRight = 0, fBottom = 256\<rparr> 1024 GLWebViewState_new)
       = [(TilesManager_setMaxTextureCount (- 2046), TiledPage FIRST_TILED_PAGE_ID),
          (TiledPage_updateBaseTileSize (TiledPage FIRST_TILED_PAGE_ID), TiledPage FIRST_TILED_PAGE_ID),
          (TiledPage_updateBaseTileSize (TiledPage SECOND_TILED_PAGE_ID), TiledPage FIRST_TILED_PAGE_ID)]"
proof -
  let ?vp = "\<lparr>fLeft = 0, fTop = 0, fRight = 0, fBottom = 256\<rparr>"
  have w: "SkRect_width ?vp = 0" by (simp add: SkRect_width_def)
  have d: "budget_defined example_env ?vp 1024" by code_simp
  have x: "viewMaxTileX example_env ?vp 1024 = - 3" by code_simp
  have m: "maxTextureCount example_env ?vp 1024 = - 2046" by code_simp
  have c: "calls (setViewport example_env ?vp 1024 GLWebViewState_new)
       = [(TilesManager_setMaxTextureCount (- 2046), TiledPage FIRST_TILED_PAGE_ID),
          (TiledPage_updateBaseTileSize (TiledPage FIRST_TILED_PAGE_ID), TiledPage FIRST_TILED_PAGE_ID),
          (TiledPage_updateBaseTileSize (TiledPage SECOND_TILED_PAGE_ID), TiledPage FIRST_TILED_PAGE_ID)]"
    by (simp add: setViewport_def Let_def emit_def frontPage_def GLWebViewState_new_def
        SkRect_setEmpty_def m)
  show ?thesis using w d x c by simp
qed

text \<open>
  C4, amended: for positive tile sizes, every \<^verbatim>\<open>setViewport\<close> call that is not a no-op
  and whose float operations stay finite and convertible sends the tiles manager
  the budget
  \<open>(viewMaxTileX + 2 * TILE_PREFETCH_DISTANCE) * (viewMaxTileY + 2 * TILE_PREFETCH_DISTANCE) * 2\<close>,
  computed in 32-bit \<^verbatim>\<open>int\<close> arithmetic (it is the exact product whenever that fits 32
  bits, and the product wrapped otherwise), and then asks both pages to update their
  tile size. The count on an axis is \<open>\<lceil>(extent - 1) * (scale / tileSize)\<rceil> + 1\<close> with the
  extent, the subtraction, the quotient and the product each rounded to binary32.
  Nothing is clamped: for an extent of zero the count is \<open>\<lceil>- r\<rceil> + 1\<close>, where \<open>r\<close> is the
  rounded quotient \<open>scale / tileSize\<close>; it is 1 when \<open>0 \<le> r < 1\<close> and negative when
  \<open>2 \<le> r\<close>.
\<close>
theorem setViewport_budget:
  assumes "0 < tileWidth e" and "0 < tileHeight e"
    and "\<not> (m_viewport s = viewport \<and> futureScale (m_zoomManager s) = scale)"
    and "budget_defined e viewport scale"
  shows "calls (setViewport e viewport scale s) =
           calls s @
           [(TilesManager_setMaxTextureCount
               (int32 ((viewMaxTileX e viewport scale + 2 * TILE_PREFETCH_DISTANCE e) *
                       (viewMaxTileY e viewport scale + 2 * TILE_PREFETCH_DISTANCE e) * 2)),
             frontPage s),
            (TiledPage_updateBaseTileSize (m_tiledPageA s), frontPage s),
            (TiledPage_updateBaseTileSize (m_tiledPageB s), frontPage s)]
     \<and> (- (2 ^ 31) \<le> (viewMaxTileX e viewport scale + 2 * TILE_PREFETCH_DISTANCE e) *
                        (viewMaxTileY e viewport scale + 2 * TILE_PREFETCH_DISTANCE e) * 2
          \<and> (viewMaxTileX e viewport scale + 2 * TILE_PREFETCH_DISTANCE e) *
              (viewMaxTileY e viewport scale + 2 * TILE_PREFETCH_DISTANCE e) * 2 < 2 ^ 31
          \<longrightarrow> int32 ((viewMaxTileX e viewport scale + 2 * TILE_PREFETCH_DISTANCE e) *
                     (viewMaxTileY e viewport scale + 2 * TILE_PREFETCH_DISTANCE e) * 2)
               = (viewMaxTileX e viewport scale + 2 * TILE_PREFETCH_DISTANCE e) *
                 (viewMaxTileY e viewport scale + 2 * TILE_PREFETCH_DISTANCE e) * 2)
     \<and> viewMaxTileX e viewport scale
         = int32 (\<lceil>binary32 (binary32 (binary32 (fRight viewport - fLeft viewport) - 1)
                              * binary32 (scale / tileWidth e))\<rceil> + 1)
     \<and> viewMaxTileY e viewport scale
         = int32 (\<lceil>binary32 (binary32 (binary32 (fBottom viewport - fTop viewport) - 1)
                              * binary32 (scale / tileHeight e))\<rceil> + 1)
     \<and> (fRight viewport = fLeft viewport
          \<longrightarrow> viewMaxTileX e viewport scale = int32 (\<lceil>- binary32 (scale / tileWidth e)\<rceil> + 1))
     \<and> (fRight viewport = fLeft viewport
            \<and> 0 \<le> binary32 (scale / tileWidth e) \<and> binary32 (scale / tileWidth e) < 1
          \<longrightarrow> viewMaxTileX e viewport scale = 1)
     \<and> (fRight viewport = fLeft viewport \<and> 2 \<le> binary32 (scale / tileWidth e)
          \<longrightarrow> viewMaxTileX e viewport scale < 0)
     \<and> (fBottom viewport = fTop viewport
          \<longrightarrow> viewMaxTileY e viewport scale = int32 (\<lceil>- binary32 (scale / tileHeight e)\<rceil> + 1))
     \<and> (fBottom viewport = fTop viewport
            \<and> 0 \<le> binary32 (scale / tileHeight e) \<and> binary32 (scale / tileHeight e) < 1
          \<longrightarrow> viewMaxTileY e viewport scale = 1)
     \<and> (fBottom viewport = fTop viewport \<and> 2 \<le> binary32 (scale / tileHeight e)
          \<longrightarrow> viewMaxTileY e viewport scale < 0)"
proof -
  let ?rx = "binary32 (scale / tileWidth e)"
  let ?ry = "binary32 (scale / tileHeight e)"
  have c: "calls (setViewport e viewport scale s) =
           calls s @
           [(TilesManager_setMaxTextureCount
               (int32 ((viewMaxTileX e viewport scale + 2 * TILE_PREFETCH_DISTANCE e) *
                       (viewMaxTileY e viewport scale + 2 * TILE_PREFETCH_DISTANCE e) * 2)),
             frontPage s),
            (TiledPage_updateBaseTileSize (m_tiledPageA s), frontPage s),
            (TiledPage_updateBaseTileSize (m_tiledPageB s), frontPage s)]"
    using assms(3)
    by (auto simp: setViewport_def Let_def emit_def frontPage_def maxTextureCount_eq)
  have x: "viewMaxTileX e viewport scale
         = int32 (\<lceil>binary32 (binary32 (binary32 (fRight viewport - fLeft viewport) - 1) * ?rx)\<rceil> + 1)"
    by (simp add: viewMaxTileX_def invTileContentWidth_def SkRect_width_def)
  have y: "viewMaxTileY e viewport scale
         = int32 (\<lceil>binary32 (binary32 (binary32 (fBottom viewport - fTop viewport) - 1) * ?ry)\<rceil> + 1)"
    by (simp add: viewMaxTileY_def invTileContentHeight_def SkRect_height_def)
  have bx: "?rx < 2 ^ 31" if "fRight viewport = fLeft viewport"
  proof -
    have "binary32 (- 1) = - 1" using binary32_of_int[of "- 1"] by simp
    then have "binary32 (binary32 (SkRect_width viewport - 1) * invTileContentWidth e scale) = - ?rx"
      using that binary32_neg_one_times[of "scale / tileWidth e"]
      by (simp add: SkRect_width_def invTileContentWidth_def)
    then have "\<bar>- ?rx\<bar> < 2 ^ 31" using assms(4) by (simp add: budget_defined_def)
    then show ?thesis by linarith
  qed
  have bY: "?ry < 2 ^ 31" if "fBottom viewport = fTop viewport"
  proof -
    have "binary32 (- 1) = - 1" using binary32_of_int[of "- 1"] by simp
    then have "binary32 (binary32 (SkRect_height viewport - 1) * invTileContentHeight e scale) = - ?ry"
      using that binary32_neg_one_times[of "scale / tileHeight e"]
      by (simp add: SkRect_height_def invTileContentHeight_def)
    then have "\<bar>- ?ry\<bar> < 2 ^ 31" using assms(4) by (simp add: budget_defined_def)
    then show ?thesis by linarith
  qed
  show ?thesis
    using c x y bx bY viewMaxTileX_zero_width[of viewport e scale]
      viewMaxTileY_zero_height[of viewport e scale]
      count_of_ratio[of ?rx] count_of_ratio[of ?ry]
    by (simp add: int32_id)
qed

theorem setViewport_budget_witness:
  "0 < tileWidth example_env \<and> 0 < tileHeight example_env
   \<and> m_viewport GLWebViewState_new \<noteq> \<lparr>fLeft = 0, fTop = 0, fRight = 2561, fBottom = 257\<rparr>
   \<and> budget_defined example_env \<lparr>fLeft = 0, fTop = 0, fRight = 2561, fBottom = 257\<rparr> (13421773 / 134217728)
   \<and> calls (setViewport example_env \<lparr>fLeft = 0, fTop = 0, fRight = 2561, fBottom = 257\<rparr>
              (13421773 / 134217728) GLWebViewState_new)
       = [(TilesManager_setMaxTextureCount 32, TiledPage FIRST_TILED_PAGE_ID),
          (TiledPage_updateBaseTileSize (TiledPage FIRST_TILED_PAGE_ID), TiledPage FIRST_TILED_PAGE_ID),
          (TiledPage_updateBaseTileSize (TiledPage SECOND_TILED_PAGE_ID), TiledPage FIRST_TILED_PAGE_ID)]
   \<and> budget_defined example_env \<lparr>fLeft = 0, fTop = 0, fRight = 512, fBottom = 512\<rparr> 1
   \<and> calls (setViewport example_env \<lparr>fLeft = 0, fTop = 0, fRight = 512, fBottom = 512\<rparr> 1 GLWebViewState_new)
       = [(TilesManager_setMaxTextureCount 50, TiledPage FIRST_TILED_PAGE_ID),
          (TiledPage_updateBaseTileSize (TiledPage FIRST_TILED_PAGE_ID), TiledPage FIRST_TILED_PAGE_ID),
          (TiledPage_updateBaseTileSize (TiledPage SECOND_TILED_PAGE_ID), TiledPage FIRST_TILED_PAGE_ID)]
   \<and> budget_defined example_env \<lparr>fLeft = 0, fTop = 0, fRight = 16777216, fBottom = 16777216\<rparr> 1
   \<and> viewMaxTileX example_env \<lparr>fLeft = 0, fTop = 0, fRight = 16777216, fBottom = 16777216\<rparr> 1 = 65537
   \<and> viewMaxTileY example_env \<lparr>fLeft = 0, fTop = 0, fRight = 16777216, fBottom = 16777216\<rparr> 1 = 65537
   \<and> calls (setViewport example_env \<lparr>fLeft = 0, fTop = 0, fRight = 16777216, fBottom = 16777216\<rparr> 1
              GLWebViewState_new)
       = [(TilesManager_setMaxTextureCount 786450, TiledPage FIRST_TILED_PAGE_ID),
          (TiledPage_updateBaseTileSize (TiledPage FIRST_TILED_PAGE_ID), TiledPage FIRST_TILED_PAGE_ID),
          (TiledPage_updateBaseTileSize (TiledPage SECOND_TILED_PAGE_ID), TiledPage FIRST_TILED_PAGE_ID)]
   \<and> budget_defined example_env \<lparr>fLeft = 0, fTop = 0, fRight = 0, fBottom = 512\<rparr> 1
   \<and> viewMaxTileX example_env \<lparr>fLeft = 0, fTop = 0, fRight = 0, fBottom = 512\<rparr> 1 = 1
   \<and> budget_defined example_env \<lparr>fLeft = 0, fTop = 0, fRight = 0, fBottom = 512\<rparr> 512
   \<and> viewMaxTileX example_env \<lparr>fLeft = 0, fTop = 0, fRight = 0, fBottom = 512\<rparr> 512 < 0
   \<and> budget_defined example_env \<lparr>fLeft = 0, fTop = 0, fRight = 512, fBottom = 0\<rparr> 1
   \<and> viewMaxTileY example_env \<lparr>fLeft = 0, fTop = 0, fRight = 512, fBottom = 0\<rparr> 1 = 1
   \<and> budget_defined example_env \<lparr>fLeft = 0, fTop = 0, fRight = 512, fBottom = 0\<rparr> 512
   \<and> viewMaxTileY example_env \<lparr>fLeft = 0, fTop = 0, fRight = 512, fBottom = 0\<rparr> 512 < 0"
proof -
  let ?va = "\<lparr>fLeft = 0, fTop = 0, fRight = 2561, fBottom = 257\<rparr>"
  let ?vb = "\<lparr>fLeft = 0, fTop = 0, fRight = 512, fBottom = 512\<rparr>"
  let ?vc = "\<lparr>fLeft = 0, fTop = 0, fRight = 16777216, fBottom = 16777216\<rparr>"
  let ?vx = "\<lparr>fLeft = 0, fTop = 0, fRight = 0, fBottom = 512\<rparr>"
  let ?vy = "\<lparr>fLeft = 0, fTop = 0, fRight = 512, fBottom = 0\<rparr>"
  have w: "0 < tileWidth example_env" and h: "0 < tileHeight example_env" by simp_all
  have n: "\<not> (m_viewport GLWebViewState_new = \<lparr>fLeft = 0, fTop = 0, fRight = r, fBottom = b\<rparr>
              \<and> futureScale (m_zoomManager GLWebViewState_new) = sc)" if "r \<noteq> 0 \<or> b \<noteq> 0" for r b sc
    using that by (auto simp: GLWebViewState_new_def SkRect_setEmpty_def)
  have na: "\<not> (m_viewport GLWebViewState_new = ?va
              \<and> futureScale (m_zoomManager GLWebViewState_new) = 13421773 / 134217728)"
    and nb: "\<not> (m_viewport GLWebViewState_new = ?vb \<and> futureScale (m_zoomManager GLWebViewState_new) = 1)"
    and nc: "\<not> (m_viewport GLWebViewState_new = ?vc \<and> futureScale (m_zoomManager GLWebViewState_new) = 1)"
    and nx: "\<not> (m_viewport GLWebViewState_new = ?vx \<and> futureScale (m_zoomManager GLWebViewState_new) = sc)"
    and ny: "\<not> (m_viewport GLWebViewState_new = ?vy \<and> futureScale (m_zoomManager GLWebViewState_new) = sc)"
    for sc
    by (rule n, simp)+
  have da: "budget_defined example_env ?va (13421773 / 134217728)" by code_simp
  have db: "budget_defined example_env ?vb 1" by code_simp
  have dc: "budget_defined example_env ?vc 1" by code_simp
  have dx1: "budget_defined example_env ?vx 1" by code_simp
  have dx2: "budget_defined example_env ?vx 512" by code_simp
  have dy1: "budget_defined example_env ?vy 1" by code_simp
  have dy2: "budget_defined example_env ?vy 512" by code_simp
  have va: "viewMaxTileX example_env ?va (13421773 / 134217728) = 2"
    "viewMaxTileY example_env ?va (13421773 / 134217728) = 2" by code_simp+
  have vb: "viewMaxTileX example_env ?vb 1 = 3" "viewMaxTileY example_env ?vb 1 = 3" by code_simp+
  have vc: "viewMaxTileX example_env ?vc 1 = 65537" "viewMaxTileY example_env ?vc 1 = 65537"
    by code_simp+
  have r: "binary32 (1 / 256) = 1 / 256" "binary32 2 = 2" by code_simp+
  have f: "frontPage GLWebViewState_new = TiledPage FIRST_TILED_PAGE_ID"
    "m_tiledPageA GLWebViewState_new = TiledPage FIRST_TILED_PAGE_ID"
    "m_tiledPageB GLWebViewState_new = TiledPage SECOND_TILED_PAGE_ID"
    "calls GLWebViewState_new = []"
    by (simp_all add: frontPage_def GLWebViewState_new_def)
  have a: "calls (setViewport example_env ?va (13421773 / 134217728) GLWebViewState_new)
       = [(TilesManager_setMaxTextureCount 32, TiledPage FIRST_TILED_PAGE_ID),
          (TiledPage_updateBaseTileSize (TiledPage FIRST_TILED_PAGE_ID), TiledPage FIRST_TILED_PAGE_ID),
          (TiledPage_updateBaseTileSize (TiledPage SECOND_TILED_PAGE_ID), TiledPage FIRST_TILED_PAGE_ID)]"
    using setViewport_budget[OF w h na da] f va by (simp add: int32_def)
  have b: "calls (setViewport example_env ?vb 1 GLWebViewState_new)
       = [(TilesManager_setMaxTextureCount 50, TiledPage FIRST_TILED_PAGE_ID),
          (TiledPage_updateBaseTileSize (TiledPage FIRST_TILED_PAGE_ID), TiledPage FIRST_TILED_PAGE_ID),
          (TiledPage_updateBaseTileSize (TiledPage SECOND_TILED_PAGE_ID), TiledPage FIRST_TILED_PAGE_ID)]"
    using setViewport_budget[OF w h nb db] f vb by (simp add: int32_def)
  have c: "calls (setViewport example_env ?vc 1 GLWebViewState_new)
       = [(TilesManager_setMaxTextureCount 786450, TiledPage FIRST_TILED_PAGE_ID),
          (TiledPage_updateBaseTileSize (TiledPage FIRST_TILED_PAGE_ID), TiledPage FIRST_TILED_PAGE_ID),
          (TiledPage_updateBaseTileSize (TiledPage SECOND_TILED_PAGE_ID), TiledPage FIRST_TILED_PAGE_ID)]"
    using setViewport_budget[OF w h nc dc] f vc by (simp add: int32_def)
  have x: "viewMaxTileX example_env ?vx 1 = 1" "viewMaxTileX example_env ?vx 512 < 0"
    using setViewport_budget[OF w h nx[of 1] dx1] setViewport_budget[OF w h nx[of 512] dx2] r
    by simp_all
  have y: "viewMaxTileY example_env ?vy 1 = 1" "viewMaxTileY example_env ?vy 512 < 0"
    using setViewport_budget[OF w h ny[of 1] dy1] setViewport_budget[OF w h ny[of 512] dy2] r
    by simp_all
  have m: "m_viewport GLWebViewState_new \<noteq> ?va"
    by (simp add: GLWebViewState_new_def SkRect_setEmpty_def)
  show ?thesis
    using w h m da a db b dc vc c dx1 dx2 dy1 dy2 x y by simp
qed
section \<open>The base layer gate\<close>

lemma inval_unlocked_empty:
  "m_baseLayerUpdate s \<Longrightarrow> IntRect_isEmpty r \<Longrightarrow>
   inval r s = emit (Profiler_nextInval r (currentScale (m_zoomManager s)))
                 (s\<lparr>m_currentPictureCounter := m_currentPictureCounter s + 1\<rparr>)"
  by (simp add: inval_def Let_def)

lemma inval_unlocked_calls:
  "m_baseLayerUpdate s \<Longrightarrow> \<not> IntRect_isEmpty r \<Longrightarrow>
   calls (inval r s) =
     calls s @ [(TiledPage_invalidateRect (frontPage s) r (m_currentPictureCounter s + 1), frontPage s),
                (Profiler_nextInval r (currentScale (m_zoomManager s)), frontPage s)]"
  by (simp add: inval_def Let_def emit_def frontPage_def)

lemma inval_unlocked_fields [simp]:
  "m_lastInval (inval r s) = m_lastInval s"
  "m_displayRings (inval r s) = m_displayRings s"
  "m_baseLayer (inval r s) = m_baseLayer s"
  "m_currentBaseLayer (inval r s) = m_currentBaseLayer s"
  "m_zoomManager (inval r s) = m_zoomManager s"
  "frontPage (inval r s) = frontPage s"
  "m_usePageA (inval r s) = m_usePageA s"
  by (simp_all add: inval_def Let_def frontPage_def)

lemma inval_unlocked_counter:
  "m_baseLayerUpdate s \<Longrightarrow> m_currentPictureCounter (inval r s) = m_currentPictureCounter s + 1"
  by (simp add: inval_def Let_def)

lemma inval_unlocked_region:
  "m_baseLayerUpdate s \<Longrightarrow> m_invalidateRegion (inval r s) = m_invalidateRegion s"
  by (simp add: inval_def Let_def)

lemma inval_locked:
  "\<not> m_baseLayerUpdate s \<Longrightarrow>
   inval r s =
     emit (Profiler_nextInval r (currentScale (m_zoomManager s)))
       (s\<lparr>m_invalidateRegion :=
            SkRegion_op_union (SkIRect_set (m_x r) (m_y r) (IntRect_maxX r) (IntRect_maxY r))
              (m_invalidateRegion s)\<rparr>)"
  by (simp add: inval_def Let_def)

lemma SkIRect_points_empty: "SkIRect_isEmpty r \<Longrightarrow> SkIRect_points r = {}"
  by (auto simp: SkIRect_points_def SkIRect_isEmpty_def)

lemma SkRegion_points_op_union:
  "SkRegion_points (SkRegion_op_union r rgn) = SkRegion_points rgn \<union> SkIRect_points r"
  by (auto simp: SkRegion_points_def SkRegion_op_union_def SkIRect_points_empty)

lemma SkIRect_roundtrip:
  "SkIRect_set (m_x (mkIntRect (iLeft r) (iTop r) (SkIRect_width r) (SkIRect_height r)))
     (m_y (mkIntRect (iLeft r) (iTop r) (SkIRect_width r) (SkIRect_height r)))
     (IntRect_maxX (mkIntRect (iLeft r) (iTop r) (SkIRect_width r) (SkIRect_height r)))
     (IntRect_maxY (mkIntRect (iLeft r) (iTop r) (SkIRect_width r) (SkIRect_height r))) = r"
  by (simp add: SkIRect_set_def mkIntRect_def IntRect_maxX_def IntRect_maxY_def
      SkIRect_width_def SkIRect_height_def)

lemma IntRect_points_of_SkIRect:
  "IntRect_points (mkIntRect (iLeft r) (iTop r) (SkIRect_width r) (SkIRect_height r)) = SkIRect_points r"
  by (simp add: IntRect_points_def SkIRect_points_def mkIntRect_def IntRect_maxX_def IntRect_maxY_def
      SkIRect_width_def SkIRect_height_def)

lemma invalRegion_Nil [simp]: "invalRegion [] s = s"
  by (simp add: invalRegion_def SkRegion_Iterator_def)

lemma invalRegion_Cons [simp]:
  "invalRegion (r # rgn) s =
     invalRegion rgn (inval (mkIntRect (iLeft r) (iTop r) (SkIRect_width r) (SkIRect_height r)) s)"
  by (simp add: invalRegion_def SkRegion_Iterator_def)

lemma invalRegion_locked:
  "\<not> m_baseLayerUpdate s \<Longrightarrow>
   \<not> m_baseLayerUpdate (invalRegion rgn s)
   \<and> m_baseLayer (invalRegion rgn s) = m_baseLayer s
   \<and> m_currentBaseLayer (invalRegion rgn s) = m_currentBaseLayer s
   \<and> SkRegion_points (m_invalidateRegion (invalRegion rgn s))
       = SkRegion_points (m_invalidateRegion s) \<union> SkRegion_points rgn"
proof (induction rgn arbitrary: s)
  case Nil
  then show ?case by (simp add: SkRegion_points_def)
next
  case (Cons r rgn)
  let ?s1 = "inval (mkIntRect (iLeft r) (iTop r) (SkIRect_width r) (SkIRect_height r)) s"
  have l: "\<not> m_baseLayerUpdate ?s1" using Cons.prems by (simp add: inval_baseLayerUpdate)
  have p: "SkRegion_points (m_invalidateRegion ?s1)
             = SkRegion_points (m_invalidateRegion s) \<union> SkIRect_points r"
    using Cons.prems
    by (simp add: inval_locked SkIRect_roundtrip SkRegion_points_op_union emit_def)
  have q: "SkRegion_points (r # rgn) = SkIRect_points r \<union> SkRegion_points rgn"
    by (simp add: SkRegion_points_def)
  show ?case using Cons.IH[OF l] p q by (simp add: Un_assoc)
qed

lemma setBaseLayer_locked:
  assumes "\<not> m_baseLayerUpdate s"
  shows "\<not> m_baseLayerUpdate (setBaseLayer layer rgn ind False s)
   \<and> m_baseLayer (setBaseLayer layer rgn ind False s) = layer
   \<and> m_currentBaseLayer (setBaseLayer layer rgn ind False s) = m_currentBaseLayer s
   \<and> SkRegion_points (m_invalidateRegion (setBaseLayer layer rgn ind False s))
       = SkRegion_points (m_invalidateRegion s) \<union> SkRegion_points rgn"
proof -
  define s7 where "s7 =
     (let s1 = (if layer = None
                then emit (TiledPage_discardTextures (m_tiledPageB s))
                       (emit (TiledPage_discardTextures (m_tiledPageA s)) s)
                else s);
          s3 = (case (m_baseLayer s1, layer) of
                  (Some old, Some new) \<Rightarrow> emit (BaseLayerAndroid_swapExtra (layer_id old) (layer_id new)) s1
                | _ \<Rightarrow> s1);
          s4 = s3\<lparr>m_baseLayer := layer\<rparr>;
          s5 = (case m_baseLayer s4 of
                  Some l \<Rightarrow> emit (BaseLayerAndroid_setGLWebViewState (layer_id l)) s4
                | None \<Rightarrow> s4)
      in s5\<lparr>m_displayRings := False\<rparr>)"
  have e: "setBaseLayer layer rgn ind False s
            = emit (TilesManager_setShowVisualIndicator ind) (invalRegion rgn s7)"
    using assms by (simp add: setBaseLayer_def s7_def Let_def split: option.splits)
  have f: "\<not> m_baseLayerUpdate s7" "m_baseLayer s7 = layer"
    "m_currentBaseLayer s7 = m_currentBaseLayer s" "m_invalidateRegion s7 = m_invalidateRegion s"
    using assms by (simp_all add: s7_def Let_def split: option.splits)
  show ?thesis
    using invalRegion_locked[OF f(1), of rgn] f by (simp add: e)
qed

lemma setBaseLayer_calls_locked:
  "\<not> m_baseLayerUpdate s \<Longrightarrow>
   \<not> m_baseLayerUpdate (setBaseLayer_calls cs s)
   \<and> m_baseLayer (setBaseLayer_calls cs s) = (if cs = [] then m_baseLayer s else fst (last cs))
   \<and> m_currentBaseLayer (setBaseLayer_calls cs s) = m_currentBaseLayer s
   \<and> SkRegion_points (m_invalidateRegion (setBaseLayer_calls cs s))
       = SkRegion_points (m_invalidateRegion s) \<union> (\<Union>c \<in> set cs. SkRegion_points (fst (snd c)))"
proof (induction cs arbitrary: s)
  case Nil
  then show ?case by simp
next
  case (Cons c cs)
  obtain layer rgn ind where c: "c = (layer, rgn, ind)" by (cases c) auto
  let ?s1 = "setBaseLayer layer rgn ind False s"
  note one = setBaseLayer_locked[OF Cons.prems, of layer rgn ind]
  from one have l: "\<not> m_baseLayerUpdate ?s1" by simp
  show ?case
    using Cons.IH[OF l] one by (auto simp: c)
qed

lemma front_invalidateRects_append:
  "front_invalidateRects (xs @ ys) = front_invalidateRects xs @ front_invalidateRects ys"
  by (induction xs rule: front_invalidateRects.induct) simp_all

lemma inval_unlocked_new_calls:
  assumes "m_baseLayerUpdate s"
  shows "\<exists>xs. calls (inval r s) = calls s @ xs
          \<and> front_invalidateRects xs = (if IntRect_isEmpty r then [] else [r])"
proof (cases "IntRect_isEmpty r")
  case True
  then show ?thesis using assms by (simp add: inval_unlocked_empty)
next
  case False
  then show ?thesis using assms by (simp add: inval_unlocked_calls)
qed

lemma invalRegion_unlocked:
  "m_baseLayerUpdate s \<Longrightarrow>
   m_baseLayerUpdate (invalRegion rgn s)
   \<and> m_invalidateRegion (invalRegion rgn s) = m_invalidateRegion s
   \<and> m_baseLayer (invalRegion rgn s) = m_baseLayer s
   \<and> m_currentBaseLayer (invalRegion rgn s) = m_currentBaseLayer s
   \<and> m_displayRings (invalRegion rgn s) = m_displayRings s
   \<and> frontPage (invalRegion rgn s) = frontPage s
   \<and> (\<exists>xs. calls (invalRegion rgn s) = calls s @ xs
         \<and> \<Union> (IntRect_points ` set (front_invalidateRects xs)) = SkRegion_points rgn)
   \<and> IntRect_points (m_frameworkInval s) \<union> SkRegion_points rgn
        \<subseteq> IntRect_points (m_frameworkInval (invalRegion rgn s))"
proof (induction rgn arbitrary: s)
  case Nil
  then show ?case by (simp add: SkRegion_points_def)
next
  case (Cons r rgn)
  let ?ir = "mkIntRect (iLeft r) (iTop r) (SkIRect_width r) (SkIRect_height r)"
  let ?s1 = "inval ?ir s"
  have u: "m_baseLayerUpdate ?s1" using Cons.prems by (simp add: inval_baseLayerUpdate)
  note IH = Cons.IH[OF u]
  obtain xs where xs: "calls ?s1 = calls s @ xs"
    "front_invalidateRects xs = (if IntRect_isEmpty ?ir then [] else [?ir])"
    using inval_unlocked_new_calls[OF Cons.prems, of ?ir] by blast
  from IH obtain ys where ys: "calls (invalRegion rgn ?s1) = calls ?s1 @ ys"
    "\<Union> (IntRect_points ` set (front_invalidateRects ys)) = SkRegion_points rgn"
    by blast
  have pts: "\<Union> (IntRect_points ` set (front_invalidateRects xs)) = SkIRect_points r"
  proof (cases "IntRect_isEmpty ?ir")
    case True
    then have "SkIRect_points r = {}"
      using IntRect_points_empty[of ?ir] by (simp add: IntRect_points_of_SkIRect)
    then show ?thesis using xs(2) True by simp
  next
    case False
    then show ?thesis using xs(2) by (simp add: IntRect_points_of_SkIRect)
  qed
  have q: "SkRegion_points (r # rgn) = SkIRect_points r \<union> SkRegion_points rgn"
    by (simp add: SkRegion_points_def)
  have c: "calls (invalRegion (r # rgn) s) = calls s @ (xs @ ys)
        \<and> \<Union> (IntRect_points ` set (front_invalidateRects (xs @ ys))) = SkRegion_points (r # rgn)"
    using xs(1) ys pts q by (simp add: front_invalidateRects_append)
  have m: "IntRect_points (m_frameworkInval s) \<union> SkIRect_points r
             \<subseteq> IntRect_points (m_frameworkInval ?s1)"
  proof (cases "IntRect_isEmpty ?ir")
    case True
    then show ?thesis
      using Cons.prems IntRect_points_empty[of ?ir]
      by (simp add: inval_frameworkInval IntRect_points_of_SkIRect)
  next
    case False
    show ?thesis
    proof (cases "IntRect_isEmpty (m_frameworkInval s)")
      case True
      then show ?thesis
        using Cons.prems False IntRect_points_empty[of "m_frameworkInval s"]
        by (simp add: inval_frameworkInval IntRect_points_of_SkIRect)
    next
      case ne: False
      then show ?thesis
        using Cons.prems False IntRect_unite_points_upper[of "m_frameworkInval s" ?ir]
        by (simp add: inval_frameworkInval IntRect_points_of_SkIRect)
    qed
  qed
  have f: "IntRect_points (m_frameworkInval s) \<union> SkRegion_points (r # rgn)
        \<subseteq> IntRect_points (m_frameworkInval (invalRegion (r # rgn) s))"
    using IH m q by auto
  show ?case
    using IH Cons.prems c f by (simp add: inval_unlocked_region)
qed

lemma setBaseLayer_flagged:
  "m_baseLayerUpdate (setBaseLayer layer rgn ind True s)
   \<and> m_invalidateRegion (setBaseLayer layer rgn ind True s) = []
   \<and> \<not> m_displayRings (setBaseLayer layer rgn ind True s)
   \<and> m_baseLayer (setBaseLayer layer rgn ind True s) = layer
   \<and> m_currentBaseLayer (setBaseLayer layer rgn ind True s) = layer
   \<and> (\<exists>zs. calls (setBaseLayer layer rgn ind True s)
          = calls s @ [(TiledPage_discardTextures (m_tiledPageA s), frontPage s),
                       (TiledPage_discardTextures (m_tiledPageB s), frontPage s)] @ zs)"
proof -
  define s2 where "s2 =
     (emit (TiledPage_discardTextures (m_tiledPageB s))
        (emit (TiledPage_discardTextures (m_tiledPageA s)) s))
       \<lparr>m_baseLayerUpdate := True, m_invalidateRegion := SkRegion_setEmpty\<rparr>"
  define s7 where "s7 =
     (let s3 = (case (m_baseLayer s2, layer) of
                  (Some old, Some new) \<Rightarrow> emit (BaseLayerAndroid_swapExtra (layer_id old) (layer_id new)) s2
                | _ \<Rightarrow> s2);
          s4 = s3\<lparr>m_baseLayer := layer\<rparr>;
          s5 = (case m_baseLayer s4 of
                  Some l \<Rightarrow> emit (BaseLayerAndroid_setGLWebViewState (layer_id l)) s4
                | None \<Rightarrow> s4);
          s6 = s5\<lparr>m_currentBaseLayer := layer\<rparr>
      in s6\<lparr>m_displayRings := False\<rparr>)"
  define s' where "s' = setBaseLayer layer rgn ind True s"
  have e: "s' = emit (TilesManager_setShowVisualIndicator ind) (invalRegion rgn s7)"
    by (simp add: s'_def setBaseLayer_def s7_def s2_def Let_def split: option.splits)
  have c2: "calls s2 = calls s @ [(TiledPage_discardTextures (m_tiledPageA s), frontPage s),
                                  (TiledPage_discardTextures (m_tiledPageB s), frontPage s)]"
    by (simp add: s2_def)
  have "\<exists>zs. calls s7 = calls s2 @ zs"
    by (simp add: s7_def Let_def split: option.splits)
  then obtain zs where zs: "calls s7 = calls s2 @ zs" by blast
  have f: "m_baseLayerUpdate s7" "m_invalidateRegion s7 = SkRegion_setEmpty"
    "\<not> m_displayRings s7" "m_baseLayer s7 = layer" "m_currentBaseLayer s7 = layer"
    by (simp_all add: s7_def s2_def Let_def split: option.splits)
  note fl = invalRegion_unlocked[OF f(1), of rgn]
  from fl obtain xs where xs: "calls (invalRegion rgn s7) = calls s7 @ xs" by blast
  have c: "calls s' = calls s @ [(TiledPage_discardTextures (m_tiledPageA s), frontPage s),
                       (TiledPage_discardTextures (m_tiledPageB s), frontPage s)]
                @ (zs @ xs @ [(TilesManager_setShowVisualIndicator ind, frontPage (invalRegion rgn s7))])"
    by (simp add: e xs zs c2)
  have a: "m_baseLayerUpdate s'" "m_invalidateRegion s' = []" "\<not> m_displayRings s'"
    "m_baseLayer s' = layer" "m_currentBaseLayer s' = layer"
    using fl f by (simp_all add: e SkRegion_setEmpty_def)
  show ?thesis
    unfolding s'_def[symmetric] using a c by blast
qed

text \<open>While the gate is open nothing is pending: an invariant of the reachable states.\<close>

lemma gate_inv_inval:
  "(m_baseLayerUpdate s \<longrightarrow> m_invalidateRegion s = []) \<Longrightarrow>
   (m_baseLayerUpdate (inval r s) \<longrightarrow> m_invalidateRegion (inval r s) = [])"
  by (cases "m_baseLayerUpdate s")
     (simp_all add: inval_unlocked_region inval_baseLayerUpdate)

lemma gate_inv_invalRegion:
  "(m_baseLayerUpdate s \<longrightarrow> m_invalidateRegion s = []) \<Longrightarrow>
   (m_baseLayerUpdate (invalRegion rgn s) \<longrightarrow> m_invalidateRegion (invalRegion rgn s) = [])"
proof (induction rgn arbitrary: s)
  case Nil
  then show ?case by simp
next
  case (Cons r rgn)
  show ?case
    using Cons.IH[OF gate_inv_inval[OF Cons.prems]] by simp
qed

lemma gate_inv_setBaseLayer:
  assumes g: "m_baseLayerUpdate s \<longrightarrow> m_invalidateRegion s = []"
  shows "m_baseLayerUpdate (setBaseLayer l rgn i f s)
         \<longrightarrow> m_invalidateRegion (setBaseLayer l rgn i f s) = []"
proof (cases f)
  case True
  then show ?thesis
    using setBaseLayer_flagged[of l rgn i s] by simp
next
  case False
  show ?thesis
  proof (cases "m_baseLayerUpdate s")
    case True
    define s7 where "s7 =
       (let s1 = (if l = None
                  then emit (TiledPage_discardTextures (m_tiledPageB s))
                         (emit (TiledPage_discardTextures (m_tiledPageA s)) s)
                  else s);
            s3 = (case (m_baseLayer s1, l) of
                    (Some old, Some new) \<Rightarrow> emit (BaseLayerAndroid_swapExtra (layer_id old) (layer_id new)) s1
                  | _ \<Rightarrow> s1);
            s4 = s3\<lparr>m_baseLayer := l\<rparr>;
            s5 = (case m_baseLayer s4 of
                    Some x \<Rightarrow> emit (BaseLayerAndroid_setGLWebViewState (layer_id x)) s4
                  | None \<Rightarrow> s4);
            s6 = s5\<lparr>m_currentBaseLayer := l\<rparr>
        in s6\<lparr>m_displayRings := False\<rparr>)"
    have e: "setBaseLayer l rgn i f s = emit (TilesManager_setShowVisualIndicator i) (invalRegion rgn s7)"
      using True False by (simp add: setBaseLayer_def s7_def Let_def split: option.splits)
    have "m_baseLayerUpdate s7 \<longrightarrow> m_invalidateRegion s7 = []"
      using g True by (simp add: s7_def Let_def split: option.splits)
    then show ?thesis
      using gate_inv_invalRegion[of s7 rgn] by (simp add: e)
  next
    case lk: False
    then show ?thesis
      using setBaseLayer_locked[OF lk, of l rgn i] False by simp
  qed
qed

lemma gate_inv_apply_op:
  assumes g: "m_baseLayerUpdate s \<longrightarrow> m_invalidateRegion s = []"
  shows "m_baseLayerUpdate (apply_op e op s) \<longrightarrow> m_invalidateRegion (apply_op e op s) = []"
proof (cases op)
  case (Op_setBaseLayer l rgn i f)
  then show ?thesis using gate_inv_setBaseLayer[OF g] by simp
next
  case Op_unlockBaseLayerUpdate
  show ?thesis
  proof (cases "m_baseLayerUpdate s")
    case True
    then show ?thesis using g Op_unlockBaseLayerUpdate by (simp add: unlockBaseLayerUpdate_def)
  next
    case False
    then show ?thesis
      using Op_unlockBaseLayerUpdate
      by (simp add: unlockBaseLayerUpdate_def Let_def SkRegion_setEmpty_def)
  qed
next
  case (Op_setExtra l p r a)
  show ?thesis
  proof (cases "m_baseLayerUpdate s")
    case True
    then show ?thesis
      using g Op_setExtra
      by (simp add: setExtra_def Let_def inval_unlocked_region inval_baseLayerUpdate)
  next
    case False
    then show ?thesis using Op_setExtra by (simp add: setExtra_def)
  qed
next
  case (Op_inval r)
  then show ?thesis using gate_inv_inval[OF g] by simp
qed (use g in \<open>simp_all add: setRings_def lockBaseLayerUpdate_def resetRings_def swapPages_def
      setViewport_def resetFrameworkInval_def addDirtyArea_def resetLayersDirtyArea_def Let_def\<close>)

lemma gate_inv_fold_apply_op:
  "(m_baseLayerUpdate s \<longrightarrow> m_invalidateRegion s = []) \<Longrightarrow>
   (m_baseLayerUpdate (fold (apply_op e) ops s) \<longrightarrow> m_invalidateRegion (fold (apply_op e) ops s) = [])"
proof (induction ops arbitrary: s)
  case Nil
  then show ?case by simp
next
  case (Cons op ops)
  show ?case
    using Cons.IH[OF gate_inv_apply_op[OF Cons.prems]] by simp
qed

lemma gate_inv_drawGL:
  assumes g: "m_baseLayerUpdate s \<longrightarrow> m_invalidateRegion s = []"
    and d: "drawGL e rect vp ir wr tbh clip sc s = Returned r i s'"
  shows "m_baseLayerUpdate s' \<longrightarrow> m_invalidateRegion s' = []"
proof (cases "drawGL_prepare e vp sc s")
  case (NoBaseLayer s2)
  then show ?thesis
    using g d by (auto simp: drawGL_def drawGL_prepare_def Let_def split: option.splits if_splits)
next
  case (Crashed s6)
  then show ?thesis using d by (simp add: drawGL_def)
next
  case (Ready bl cr s6)
  have p: "m_baseLayerUpdate s6 = m_baseLayerUpdate s \<and> m_invalidateRegion s6 = m_invalidateRegion s"
    using Ready
    by (auto simp: drawGL_prepare_def Let_def resetLayersDirtyArea_def split: option.splits if_splits)
  define s4 where "s4 = snd (setupDrawing e rect vp wr tbh clip sc
      ((if cr \<noteq> m_previouslyUsedRoot s6
        then emit (TilesManager_swapLayersTextures (m_previouslyUsedRoot s6) cr)
               (emit TilesManager_gatherLayerTextures s6)
        else emit TilesManager_gatherLayerTextures s6)\<lparr>m_backgroundColor := backgroundColor bl\<rparr>))"
  define s5 where "s5 = emit (BaseLayerAndroid_drawGL_call (layer_id bl) cr) s4"
  have q: "m_baseLayerUpdate s5 = m_baseLayerUpdate s6 \<and> m_invalidateRegion s5 = m_invalidateRegion s6"
    by (simp add: s5_def s4_def setupDrawing_def setViewport_def Let_def)
  define s7 where "s7 = snd (drawGL_draw e rect vp wr tbh clip sc bl cr s6)"
  have s7: "m_baseLayerUpdate s7 = m_baseLayerUpdate (fold (apply_op e) (snd (BaseLayerAndroid_drawGL e s5)) s5)
      \<and> m_invalidateRegion s7 = m_invalidateRegion (fold (apply_op e) (snd (BaseLayerAndroid_drawGL e s5)) s5)"
    by (simp add: s7_def drawGL_draw_def s5_def s4_def Let_def split_beta)
  have g7: "m_baseLayerUpdate s7 \<longrightarrow> m_invalidateRegion s7 = []"
    using gate_inv_fold_apply_op[of s5 e "snd (BaseLayerAndroid_drawGL e s5)"] g p q s7 by simp
  have "s' = (returned_state (drawGL_inval e rect ir (fst (drawGL_draw e rect vp wr tbh clip sc bl cr s6)) s7))"
    using d drawGL_Ready[OF Ready, of rect ir wr tbh clip] by (simp add: s7_def)
  then have "m_baseLayerUpdate s' = m_baseLayerUpdate s7 \<and> m_invalidateRegion s' = m_invalidateRegion s7"
    by (simp add: drawGL_inval_eq)
  then show ?thesis using g7 by simp
qed

lemma reachable_gate_inv:
  "reachable s \<Longrightarrow> m_baseLayerUpdate s \<longrightarrow> m_invalidateRegion s = []"
proof (induction rule: reachable.induct)
  case reachable_new
  show ?case by (simp add: GLWebViewState_new_def SkRegion_setEmpty_def)
next
  case (reachable_op s e op)
  show ?case using reachable_op.IH by (rule gate_inv_apply_op)
next
  case (reachable_collaborators s z isc sw)
  then show ?case by simp
next
  case (reachable_drawGL s e rect viewport invalRect webViewRect titleBarHeight clip scale ret invalRect' s')
  show ?case using reachable_drawGL.IH reachable_drawGL.hyps(2) by (rule gate_inv_drawGL)
qed

lemma unite_step_points:
  "IntRect_points F \<union> IntRect_points R
     \<subseteq> IntRect_points (if IntRect_isEmpty R then F
                         else if IntRect_isEmpty F then R else IntRect_unite F R)"
  using IntRect_unite_points_upper[of F R]
  by (simp add: IntRect_points_empty)

lemma setExtra_merge_state:
  assumes "m_baseLayerUpdate s" and "allowSame \<or> m_lastInval s \<noteq> rect"
  shows "setExtra layer picture rect allowSame s =
     (let s1 = emit (BaseLayerAndroid_setExtra (layer_id layer) picture) s;
          s2 = (if IntRect_isEmpty rect then s1 else inval rect s1);
          s3 = (if IntRect_isEmpty (m_lastInval s) then s2 else inval (m_lastInval s) s2)
      in s3\<lparr>m_lastInval := rect, m_displayRings := False\<rparr>)"
  using assms by (auto simp: setExtra_def Let_def)

lemma setExtra_merge_frameworkInval:
  assumes "m_baseLayerUpdate s" and "allowSame \<or> m_lastInval s \<noteq> rect"
  shows "m_frameworkInval (setExtra layer picture rect allowSame s) =
     (if IntRect_isEmpty (m_lastInval s) then
        (if IntRect_isEmpty rect then m_frameworkInval s
         else if IntRect_isEmpty (m_frameworkInval s) then rect
         else IntRect_unite (m_frameworkInval s) rect)
      else if IntRect_isEmpty
                (if IntRect_isEmpty rect then m_frameworkInval s
                 else if IntRect_isEmpty (m_frameworkInval s) then rect
                 else IntRect_unite (m_frameworkInval s) rect)
      then m_lastInval s
      else IntRect_unite
             (if IntRect_isEmpty rect then m_frameworkInval s
              else if IntRect_isEmpty (m_frameworkInval s) then rect
              else IntRect_unite (m_frameworkInval s) rect)
             (m_lastInval s))"
proof -
  let ?s1 = "emit (BaseLayerAndroid_setExtra (layer_id layer) picture) s"
  have u: "m_baseLayerUpdate ?s1" "m_baseLayerUpdate (inval rect ?s1)"
    using assms(1) by (simp_all add: inval_baseLayerUpdate)
  show ?thesis
    unfolding setExtra_merge_state[OF assms]
    using u by (simp add: Let_def inval_frameworkInval)
qed

lemma setExtra_merge_counter:
  assumes "m_baseLayerUpdate s" and "allowSame \<or> m_lastInval s \<noteq> rect"
  shows "m_currentPictureCounter (setExtra layer picture rect allowSame s) =
     m_currentPictureCounter s + (if IntRect_isEmpty rect then 0 else 1)
       + (if IntRect_isEmpty (m_lastInval s) then 0 else 1)"
    and "m_invalidateRegion (setExtra layer picture rect allowSame s) = m_invalidateRegion s"
    and "m_baseLayerUpdate (setExtra layer picture rect allowSame s)"
proof -
  let ?s1 = "emit (BaseLayerAndroid_setExtra (layer_id layer) picture) s"
  have u: "m_baseLayerUpdate ?s1" "m_baseLayerUpdate (inval rect ?s1)"
    using assms(1) by (simp_all add: inval_baseLayerUpdate)
  show "m_currentPictureCounter (setExtra layer picture rect allowSame s) =
     m_currentPictureCounter s + (if IntRect_isEmpty rect then 0 else 1)
       + (if IntRect_isEmpty (m_lastInval s) then 0 else 1)"
    unfolding setExtra_merge_state[OF assms]
    using u by (simp add: Let_def inval_unlocked_counter)
  show "m_invalidateRegion (setExtra layer picture rect allowSame s) = m_invalidateRegion s"
    unfolding setExtra_merge_state[OF assms]
    using u by (simp add: Let_def inval_unlocked_region)
  show "m_baseLayerUpdate (setExtra layer picture rect allowSame s)"
    unfolding setExtra_merge_state[OF assms]
    using u by (simp add: Let_def inval_baseLayerUpdate)
qed

lemma setExtra_merge_points:
  assumes "m_baseLayerUpdate s" and "allowSame \<or> m_lastInval s \<noteq> rect"
  shows "IntRect_points (m_frameworkInval s) \<union> IntRect_points rect \<union> IntRect_points (m_lastInval s)
           \<subseteq> IntRect_points (m_frameworkInval (setExtra layer picture rect allowSame s))"
proof -
  let ?u = "if IntRect_isEmpty rect then m_frameworkInval s
            else if IntRect_isEmpty (m_frameworkInval s) then rect
            else IntRect_unite (m_frameworkInval s) rect"
  have a: "IntRect_points (m_frameworkInval s) \<union> IntRect_points rect \<subseteq> IntRect_points ?u"
    by (rule unite_step_points)
  have b: "IntRect_points ?u \<union> IntRect_points (m_lastInval s)
             \<subseteq> IntRect_points (if IntRect_isEmpty (m_lastInval s) then ?u
                                 else if IntRect_isEmpty ?u then m_lastInval s
                                 else IntRect_unite ?u (m_lastInval s))"
    by (rule unite_step_points)
  have c: "m_frameworkInval (setExtra layer picture rect allowSame s) =
             (if IntRect_isEmpty (m_lastInval s) then ?u
              else if IntRect_isEmpty ?u then m_lastInval s
              else IntRect_unite ?u (m_lastInval s))"
    unfolding setExtra_merge_frameworkInval[OF assms] by simp
  show ?thesis unfolding c using a b by blast
qed

text \<open>
  C7: while the gate is LOCKED, \<^verbatim>\<open>setExtra\<close> changes nothing. While it is not locked,
  the layer receives the picture; if the rectangle equals the previous one and
  \<open>allowSame\<close> is false, that call is all that happens: nothing is invalidated, the
  base-content union, the picture counter and the rings are as before. Otherwise
  the new rectangle (if not empty) and then the previous rectangle (if not empty)
  are each merged: one \<^verbatim>\<open>invalidateRect\<close> on the front page each, with the picture
  counter advanced by one each, and the base-content union becomes the old union
  united with the new rectangle and then with the previous one (an empty union
  adopts the rectangle), so that it covers the old union and both rectangles; the
  pending region is untouched, the gate stays open, the rectangle is remembered and
  the rings are no longer displayed.
\<close>
theorem setExtra_gated:
  "(LOCKED s \<longrightarrow> setExtra layer picture rect allowSame s = s)
   \<and> (\<not> LOCKED s \<and> \<not> allowSame \<and> m_lastInval s = rect \<longrightarrow>
        setExtra layer picture rect allowSame s
          = emit (BaseLayerAndroid_setExtra (layer_id layer) picture) s
        \<and> new_calls s (setExtra layer picture rect allowSame s)
            = [(BaseLayerAndroid_setExtra (layer_id layer) picture, frontPage s)]
        \<and> front_invalidateRects (new_calls s (setExtra layer picture rect allowSame s)) = []
        \<and> m_frameworkInval (setExtra layer picture rect allowSame s) = m_frameworkInval s
        \<and> m_currentPictureCounter (setExtra layer picture rect allowSame s) = m_currentPictureCounter s
        \<and> m_lastInval (setExtra layer picture rect allowSame s) = rect
        \<and> m_displayRings (setExtra layer picture rect allowSame s) = m_displayRings s)
   \<and> (\<not> LOCKED s \<and> (allowSame \<or> m_lastInval s \<noteq> rect) \<longrightarrow>
        new_calls s (setExtra layer picture rect allowSame s)
          = [(BaseLayerAndroid_setExtra (layer_id layer) picture, frontPage s)]
            @ (if IntRect_isEmpty rect then []
               else [(TiledPage_invalidateRect (frontPage s) rect (m_currentPictureCounter s + 1), frontPage s),
                     (Profiler_nextInval rect (currentScale (m_zoomManager s)), frontPage s)])
            @ (if IntRect_isEmpty (m_lastInval s) then []
               else [(TiledPage_invalidateRect (frontPage s) (m_lastInval s)
                        (m_currentPictureCounter s + (if IntRect_isEmpty rect then 1 else 2)), frontPage s),
                     (Profiler_nextInval (m_lastInval s) (currentScale (m_zoomManager s)), frontPage s)])
        \<and> front_invalidateRects (new_calls s (setExtra layer picture rect allowSame s))
            = (if IntRect_isEmpty rect then [] else [rect])
              @ (if IntRect_isEmpty (m_lastInval s) then [] else [m_lastInval s])
        \<and> m_frameworkInval (setExtra layer picture rect allowSame s)
            = m_frameworkInval (inval (m_lastInval s) (inval rect s))
        \<and> m_frameworkInval (setExtra layer picture rect allowSame s)
            = (if IntRect_isEmpty (m_lastInval s) then
                 (if IntRect_isEmpty rect then m_frameworkInval s
                  else if IntRect_isEmpty (m_frameworkInval s) then rect
                  else IntRect_unite (m_frameworkInval s) rect)
               else if IntRect_isEmpty
                         (if IntRect_isEmpty rect then m_frameworkInval s
                          else if IntRect_isEmpty (m_frameworkInval s) then rect
                          else IntRect_unite (m_frameworkInval s) rect)
               then m_lastInval s
               else IntRect_unite
                      (if IntRect_isEmpty rect then m_frameworkInval s
                       else if IntRect_isEmpty (m_frameworkInval s) then rect
                       else IntRect_unite (m_frameworkInval s) rect)
                      (m_lastInval s))
        \<and> IntRect_points (m_frameworkInval s) \<union> IntRect_points rect \<union> IntRect_points (m_lastInval s)
            \<subseteq> IntRect_points (m_frameworkInval (setExtra layer picture rect allowSame s))
        \<and> m_currentPictureCounter (setExtra layer picture rect allowSame s)
            = m_currentPictureCounter s + (if IntRect_isEmpty rect then 0 else 1)
              + (if IntRect_isEmpty (m_lastInval s) then 0 else 1)
        \<and> m_invalidateRegion (setExtra layer picture rect allowSame s) = m_invalidateRegion s
        \<and> \<not> LOCKED (setExtra layer picture rect allowSame s)
        \<and> m_lastInval (setExtra layer picture rect allowSame s) = rect
        \<and> \<not> m_displayRings (setExtra layer picture rect allowSame s))"
proof (intro conjI impI)
  assume "LOCKED s"
  then show "setExtra layer picture rect allowSame s = s"
    by (simp add: setExtra_def LOCKED_def)
next
  assume a: "\<not> LOCKED s \<and> \<not> allowSame \<and> m_lastInval s = rect"
  then show e: "setExtra layer picture rect allowSame s
          = emit (BaseLayerAndroid_setExtra (layer_id layer) picture) s"
    by (simp add: setExtra_def LOCKED_def Let_def)
  then show "new_calls s (setExtra layer picture rect allowSame s)
            = [(BaseLayerAndroid_setExtra (layer_id layer) picture, frontPage s)]"
    "front_invalidateRects (new_calls s (setExtra layer picture rect allowSame s)) = []"
    "m_frameworkInval (setExtra layer picture rect allowSame s) = m_frameworkInval s"
    "m_currentPictureCounter (setExtra layer picture rect allowSame s) = m_currentPictureCounter s"
    "m_displayRings (setExtra layer picture rect allowSame s) = m_displayRings s"
    by (simp_all add: new_calls_def emit_def frontPage_def)
  show "m_lastInval (setExtra layer picture rect allowSame s) = rect"
    using a e by simp
next
  assume a: "\<not> LOCKED s \<and> (allowSame \<or> m_lastInval s \<noteq> rect)"
  let ?s1 = "emit (BaseLayerAndroid_setExtra (layer_id layer) picture) s"
  have u: "m_baseLayerUpdate s" "m_baseLayerUpdate ?s1" using a by (simp_all add: LOCKED_def)
  have u2: "m_baseLayerUpdate (inval rect ?s1)" "m_baseLayerUpdate (inval rect s)"
    using u by (simp_all add: inval_baseLayerUpdate)
  have d: "allowSame \<or> m_lastInval s \<noteq> rect" using a by simp
  show c: "new_calls s (setExtra layer picture rect allowSame s)
          = [(BaseLayerAndroid_setExtra (layer_id layer) picture, frontPage s)]
            @ (if IntRect_isEmpty rect then []
               else [(TiledPage_invalidateRect (frontPage s) rect (m_currentPictureCounter s + 1), frontPage s),
                     (Profiler_nextInval rect (currentScale (m_zoomManager s)), frontPage s)])
            @ (if IntRect_isEmpty (m_lastInval s) then []
               else [(TiledPage_invalidateRect (frontPage s) (m_lastInval s)
                        (m_currentPictureCounter s + (if IntRect_isEmpty rect then 1 else 2)), frontPage s),
                     (Profiler_nextInval (m_lastInval s) (currentScale (m_zoomManager s)), frontPage s)])"
    using a u u2
    by (auto simp: setExtra_def LOCKED_def Let_def new_calls_def inval_unlocked_calls
          inval_unlocked_counter)
  show "front_invalidateRects (new_calls s (setExtra layer picture rect allowSame s))
            = (if IntRect_isEmpty rect then [] else [rect])
              @ (if IntRect_isEmpty (m_lastInval s) then [] else [m_lastInval s])"
    unfolding c by simp
  show "m_frameworkInval (setExtra layer picture rect allowSame s)
            = m_frameworkInval (inval (m_lastInval s) (inval rect s))"
    using a u u2
    by (auto simp: setExtra_def LOCKED_def Let_def inval_frameworkInval)
  show "m_frameworkInval (setExtra layer picture rect allowSame s)
            = (if IntRect_isEmpty (m_lastInval s) then
                 (if IntRect_isEmpty rect then m_frameworkInval s
                  else if IntRect_isEmpty (m_frameworkInval s) then rect
                  else IntRect_unite (m_frameworkInval s) rect)
               else if IntRect_isEmpty
                         (if IntRect_isEmpty rect then m_frameworkInval s
                          else if IntRect_isEmpty (m_frameworkInval s) then rect
                          else IntRect_unite (m_frameworkInval s) rect)
               then m_lastInval s
               else IntRect_unite
                      (if IntRect_isEmpty rect then m_frameworkInval s
                       else if IntRect_isEmpty (m_frameworkInval s) then rect
                       else IntRect_unite (m_frameworkInval s) rect)
                      (m_lastInval s))"
    using u(1) d by (rule setExtra_merge_frameworkInval)
  show "IntRect_points (m_frameworkInval s) \<union> IntRect_points rect \<union> IntRect_points (m_lastInval s)
            \<subseteq> IntRect_points (m_frameworkInval (setExtra layer picture rect allowSame s))"
    using u(1) d by (rule setExtra_merge_points)
  show "m_currentPictureCounter (setExtra layer picture rect allowSame s)
            = m_currentPictureCounter s + (if IntRect_isEmpty rect then 0 else 1)
              + (if IntRect_isEmpty (m_lastInval s) then 0 else 1)"
    using u(1) d by (rule setExtra_merge_counter(1))
  show "m_invalidateRegion (setExtra layer picture rect allowSame s) = m_invalidateRegion s"
    using u(1) d by (rule setExtra_merge_counter(2))
  show "\<not> LOCKED (setExtra layer picture rect allowSame s)"
    using setExtra_merge_counter(3)[OF u(1) d] by (simp add: LOCKED_def)
  show "m_lastInval (setExtra layer picture rect allowSame s) = rect"
    using a by (auto simp: setExtra_def LOCKED_def Let_def)
  show "\<not> m_displayRings (setExtra layer picture rect allowSame s)"
    using a by (auto simp: setExtra_def LOCKED_def Let_def)
qed

theorem setExtra_gated_witness:
  "LOCKED (lockBaseLayerUpdate example_extras_state)
   \<and> setExtra (example_layer 1) 8 (mkIntRect 10 10 5 5) True (lockBaseLayerUpdate example_extras_state)
       = lockBaseLayerUpdate example_extras_state
   \<and> \<not> LOCKED example_extras_state
   \<and> m_lastInval example_extras_state = mkIntRect 1 1 5 5
   \<and> \<not> IntRect_isEmpty (mkIntRect 1 1 5 5)
   \<and> m_frameworkInval example_extras_state = mkIntRect 1 1 5 5
   \<and> m_currentPictureCounter example_extras_state = 1
   \<and> m_displayRings example_extras_state
   \<and> new_calls example_extras_state
        (setExtra (example_layer 1) 8 (mkIntRect 1 1 5 5) False example_extras_state)
       = [(BaseLayerAndroid_setExtra 1 8, TiledPage FIRST_TILED_PAGE_ID)]
   \<and> m_frameworkInval (setExtra (example_layer 1) 8 (mkIntRect 1 1 5 5) False example_extras_state)
       = mkIntRect 1 1 5 5
   \<and> m_currentPictureCounter (setExtra (example_layer 1) 8 (mkIntRect 1 1 5 5) False example_extras_state)
       = 1
   \<and> m_displayRings (setExtra (example_layer 1) 8 (mkIntRect 1 1 5 5) False example_extras_state)
   \<and> new_calls example_extras_state
        (setExtra (example_layer 1) 8 (mkIntRect 10 10 5 5) False example_extras_state)
       = [(BaseLayerAndroid_setExtra 1 8, TiledPage FIRST_TILED_PAGE_ID),
          (TiledPage_invalidateRect (TiledPage FIRST_TILED_PAGE_ID) (mkIntRect 10 10 5 5) 2,
           TiledPage FIRST_TILED_PAGE_ID),
          (Profiler_nextInval (mkIntRect 10 10 5 5) 1, TiledPage FIRST_TILED_PAGE_ID),
          (TiledPage_invalidateRect (TiledPage FIRST_TILED_PAGE_ID) (mkIntRect 1 1 5 5) 3,
           TiledPage FIRST_TILED_PAGE_ID),
          (Profiler_nextInval (mkIntRect 1 1 5 5) 1, TiledPage FIRST_TILED_PAGE_ID)]
   \<and> m_frameworkInval (setExtra (example_layer 1) 8 (mkIntRect 10 10 5 5) False example_extras_state)
       = mkIntRect 1 1 14 14
   \<and> m_currentPictureCounter (setExtra (example_layer 1) 8 (mkIntRect 10 10 5 5) False example_extras_state)
       = 3
   \<and> m_lastInval (setExtra (example_layer 1) 8 (mkIntRect 10 10 5 5) False example_extras_state)
       = mkIntRect 10 10 5 5
   \<and> \<not> m_displayRings (setExtra (example_layer 1) 8 (mkIntRect 10 10 5 5) False example_extras_state)
   \<and> new_calls example_extras_state
        (setExtra (example_layer 1) 8 (mkIntRect 1 1 5 5) True example_extras_state)
       = [(BaseLayerAndroid_setExtra 1 8, TiledPage FIRST_TILED_PAGE_ID),
          (TiledPage_invalidateRect (TiledPage FIRST_TILED_PAGE_ID) (mkIntRect 1 1 5 5) 2,
           TiledPage FIRST_TILED_PAGE_ID),
          (Profiler_nextInval (mkIntRect 1 1 5 5) 1, TiledPage FIRST_TILED_PAGE_ID),
          (TiledPage_invalidateRect (TiledPage FIRST_TILED_PAGE_ID) (mkIntRect 1 1 5 5) 3,
           TiledPage FIRST_TILED_PAGE_ID),
          (Profiler_nextInval (mkIntRect 1 1 5 5) 1, TiledPage FIRST_TILED_PAGE_ID)]
   \<and> \<not> m_displayRings (setExtra (example_layer 1) 8 (mkIntRect 1 1 5 5) True example_extras_state)
   \<and> new_calls example_extras_state
        (setExtra (example_layer 1) 8 (mkIntRect 0 0 0 0) False example_extras_state)
       = [(BaseLayerAndroid_setExtra 1 8, TiledPage FIRST_TILED_PAGE_ID),
          (TiledPage_invalidateRect (TiledPage FIRST_TILED_PAGE_ID) (mkIntRect 1 1 5 5) 2,
           TiledPage FIRST_TILED_PAGE_ID),
          (Profiler_nextInval (mkIntRect 1 1 5 5) 1, TiledPage FIRST_TILED_PAGE_ID)]
   \<and> m_lastInval (setExtra (example_layer 1) 8 (mkIntRect 0 0 0 0) False example_extras_state)
       = mkIntRect 0 0 0 0"
proof -
  let ?s = "example_extras_state"
  have l: "LOCKED (lockBaseLayerUpdate ?s)" "\<not> LOCKED ?s"
    by (simp_all add: example_extras_state_def setRings_def setExtra_def eval_defs)
  have f: "m_lastInval ?s = mkIntRect 1 1 5 5"
    "m_frameworkInval ?s = mkIntRect 1 1 5 5"
    "m_currentPictureCounter ?s = 1"
    "m_displayRings ?s"
    "frontPage ?s = TiledPage FIRST_TILED_PAGE_ID"
    "currentScale (m_zoomManager ?s) = 1"
    by (simp_all add: example_extras_state_def setRings_def setExtra_def eval_defs)
  have r: "\<not> IntRect_isEmpty (mkIntRect 1 1 5 5)" "\<not> IntRect_isEmpty (mkIntRect 10 10 5 5)"
    "IntRect_isEmpty (mkIntRect 0 0 0 0)"
    "mkIntRect 1 1 5 5 \<noteq> mkIntRect 10 10 5 5" "mkIntRect 1 1 5 5 \<noteq> mkIntRect 0 0 0 0"
    by (simp_all add: mkIntRect_def IntRect_isEmpty_def)
  have u: "IntRect_unite (mkIntRect 1 1 5 5) (mkIntRect 10 10 5 5) = mkIntRect 1 1 14 14"
    "IntRect_unite (mkIntRect 1 1 14 14) (mkIntRect 1 1 5 5) = mkIntRect 1 1 14 14"
    "IntRect_unite (mkIntRect 1 1 5 5) (mkIntRect 1 1 5 5) = mkIntRect 1 1 5 5"
    "\<not> IntRect_isEmpty (mkIntRect 1 1 14 14)"
    by (simp_all add: IntRect_unite_def IntRect_isEmpty_def mkIntRect_def IntRect_maxX_def
        IntRect_maxY_def Let_def)
  have g: "m_baseLayerUpdate ?s" using l(2) by (simp add: LOCKED_def)
  have a: "setExtra (example_layer 1) 8 (mkIntRect 10 10 5 5) True (lockBaseLayerUpdate ?s)
       = lockBaseLayerUpdate ?s"
    using setExtra_gated[of "lockBaseLayerUpdate ?s" "example_layer 1" 8 "mkIntRect 10 10 5 5" True] l
    by simp
  have b: "new_calls ?s (setExtra (example_layer 1) 8 (mkIntRect 1 1 5 5) False ?s)
       = [(BaseLayerAndroid_setExtra 1 8, TiledPage FIRST_TILED_PAGE_ID)]"
    "m_frameworkInval (setExtra (example_layer 1) 8 (mkIntRect 1 1 5 5) False ?s) = mkIntRect 1 1 5 5"
    "m_currentPictureCounter (setExtra (example_layer 1) 8 (mkIntRect 1 1 5 5) False ?s) = 1"
    "m_displayRings (setExtra (example_layer 1) 8 (mkIntRect 1 1 5 5) False ?s)"
    using setExtra_gated[of ?s "example_layer 1" 8 "mkIntRect 1 1 5 5" False] l f
    by (simp_all add: new_calls_def emit_def)
  have c: "new_calls ?s (setExtra (example_layer 1) 8 (mkIntRect 10 10 5 5) False ?s)
       = [(BaseLayerAndroid_setExtra 1 8, TiledPage FIRST_TILED_PAGE_ID),
          (TiledPage_invalidateRect (TiledPage FIRST_TILED_PAGE_ID) (mkIntRect 10 10 5 5) 2,
           TiledPage FIRST_TILED_PAGE_ID),
          (Profiler_nextInval (mkIntRect 10 10 5 5) 1, TiledPage FIRST_TILED_PAGE_ID),
          (TiledPage_invalidateRect (TiledPage FIRST_TILED_PAGE_ID) (mkIntRect 1 1 5 5) 3,
           TiledPage FIRST_TILED_PAGE_ID),
          (Profiler_nextInval (mkIntRect 1 1 5 5) 1, TiledPage FIRST_TILED_PAGE_ID)]"
    "m_frameworkInval (setExtra (example_layer 1) 8 (mkIntRect 10 10 5 5) False ?s) = mkIntRect 1 1 14 14"
    "m_currentPictureCounter (setExtra (example_layer 1) 8 (mkIntRect 10 10 5 5) False ?s) = 3"
    "m_lastInval (setExtra (example_layer 1) 8 (mkIntRect 10 10 5 5) False ?s) = mkIntRect 10 10 5 5"
    "\<not> m_displayRings (setExtra (example_layer 1) 8 (mkIntRect 10 10 5 5) False ?s)"
    using setExtra_gated[of ?s "example_layer 1" 8 "mkIntRect 10 10 5 5" False] l f r u g
    by (simp_all add: inval_frameworkInval inval_baseLayerUpdate)
  have d: "new_calls ?s (setExtra (example_layer 1) 8 (mkIntRect 1 1 5 5) True ?s)
       = [(BaseLayerAndroid_setExtra 1 8, TiledPage FIRST_TILED_PAGE_ID),
          (TiledPage_invalidateRect (TiledPage FIRST_TILED_PAGE_ID) (mkIntRect 1 1 5 5) 2,
           TiledPage FIRST_TILED_PAGE_ID),
          (Profiler_nextInval (mkIntRect 1 1 5 5) 1, TiledPage FIRST_TILED_PAGE_ID),
          (TiledPage_invalidateRect (TiledPage FIRST_TILED_PAGE_ID) (mkIntRect 1 1 5 5) 3,
           TiledPage FIRST_TILED_PAGE_ID),
          (Profiler_nextInval (mkIntRect 1 1 5 5) 1, TiledPage FIRST_TILED_PAGE_ID)]"
    "\<not> m_displayRings (setExtra (example_layer 1) 8 (mkIntRect 1 1 5 5) True ?s)"
    using setExtra_gated[of ?s "example_layer 1" 8 "mkIntRect 1 1 5 5" True] l f r u g
    by (simp_all add: inval_frameworkInval inval_baseLayerUpdate)
  have e: "new_calls ?s (setExtra (example_layer 1) 8 (mkIntRect 0 0 0 0) False ?s)
       = [(BaseLayerAndroid_setExtra 1 8, TiledPage FIRST_TILED_PAGE_ID),
          (TiledPage_invalidateRect (TiledPage FIRST_TILED_PAGE_ID) (mkIntRect 1 1 5 5) 2,
           TiledPage FIRST_TILED_PAGE_ID),
          (Profiler_nextInval (mkIntRect 1 1 5 5) 1, TiledPage FIRST_TILED_PAGE_ID)]"
    "m_lastInval (setExtra (example_layer 1) 8 (mkIntRect 0 0 0 0) False ?s) = mkIntRect 0 0 0 0"
    using setExtra_gated[of ?s "example_layer 1" 8 "mkIntRect 0 0 0 0" False] l f r u g
    by (simp_all add: inval_frameworkInval inval_baseLayerUpdate)
  show ?thesis
    using l f(1-4) r(1) a b c d e by simp
qed

text \<open>
  C2, as stated: every \<^verbatim>\<open>setBaseLayer\<close> call made while the gate is LOCKED leaves the
  current base layer unchanged. A call with \<^verbatim>\<open>isPictureAfterFirstLayout\<close> set opens the
  gate and makes its layer current.
\<close>
theorem locked_setBaseLayer_flag_counterexample:
  "LOCKED (lockBaseLayerUpdate GLWebViewState_new)
   \<and> m_currentBaseLayer (lockBaseLayerUpdate GLWebViewState_new) = None
   \<and> m_currentBaseLayer
        (setBaseLayer (Some (example_layer 1)) [] False True (lockBaseLayerUpdate GLWebViewState_new))
       = Some (example_layer 1)"
  by (simp add: LOCKED_def lockBaseLayerUpdate_def setBaseLayer_def Let_def GLWebViewState_new_def
      SkRegion_setEmpty_def)

text \<open>
  C2, amended: for every run of \<^verbatim>\<open>setBaseLayer\<close> calls without the flag
  \<^verbatim>\<open>isPictureAfterFirstLayout\<close> made while the gate is LOCKED, the gate stays LOCKED,
  the current base layer is unchanged, the latest base layer is the one of the last
  call, and the pending region covers what it covered before and every region of
  the calls. \<^verbatim>\<open>unlockBaseLayerUpdate\<close> then opens the gate, makes the latest layer
  current, hands the front page rectangles that cover exactly the pending region,
  leaves a base-content union that encloses the pending region, and empties the
  pending region. On an open gate \<^verbatim>\<open>unlockBaseLayerUpdate\<close> changes nothing. In a
  reachable state with an open gate nothing is pending, so what is pending at an
  unlock is what was invalidated since the gate was locked.
\<close>
theorem locked_setBaseLayer_then_unlock:
  assumes "LOCKED s"
  shows "(let s' = setBaseLayer_calls cs s; s'' = unlockBaseLayerUpdate s' in
          LOCKED s'
        \<and> m_currentBaseLayer s' = m_currentBaseLayer s
        \<and> m_baseLayer s' = (if cs = [] then m_baseLayer s else fst (last cs))
        \<and> SkRegion_points (m_invalidateRegion s')
            = SkRegion_points (m_invalidateRegion s) \<union> (\<Union>c \<in> set cs. SkRegion_points (fst (snd c)))
        \<and> \<not> LOCKED s''
        \<and> m_currentBaseLayer s'' = m_baseLayer s'
        \<and> SkRegion_isEmpty (m_invalidateRegion s'')
        \<and> \<Union> (IntRect_points ` set (front_invalidateRects (new_calls s' s'')))
            = SkRegion_points (m_invalidateRegion s')
        \<and> SkRegion_points (m_invalidateRegion s') \<subseteq> IntRect_points (m_frameworkInval s'')
        \<and> unlockBaseLayerUpdate s'' = s'')
     \<and> (\<not> LOCKED t \<longrightarrow> unlockBaseLayerUpdate t = t)
     \<and> (reachable t \<and> \<not> LOCKED t \<longrightarrow>
          SkRegion_isEmpty (m_invalidateRegion t)
          \<and> SkRegion_isEmpty (m_invalidateRegion (lockBaseLayerUpdate t)))"
proof -
  define s' where "s' = setBaseLayer_calls cs s"
  define p where "p = s'\<lparr>m_baseLayerUpdate := True, m_currentBaseLayer := m_baseLayer s'\<rparr>"
  define s'' where "s'' = unlockBaseLayerUpdate s'"
  have l: "\<not> m_baseLayerUpdate s" using assms by (simp add: LOCKED_def)
  note seq = setBaseLayer_calls_locked[OF l, of cs, folded s'_def]
  have u: "s'' = (invalRegion (m_invalidateRegion s') p)\<lparr>m_invalidateRegion := SkRegion_setEmpty\<rparr>"
    using seq by (simp add: s''_def unlockBaseLayerUpdate_def Let_def p_def)
  have pu: "m_baseLayerUpdate p" by (simp add: p_def)
  note fl = invalRegion_unlocked[OF pu, of "m_invalidateRegion s'"]
  from fl obtain xs where xs: "calls (invalRegion (m_invalidateRegion s') p) = calls p @ xs"
    "\<Union> (IntRect_points ` set (front_invalidateRects xs)) = SkRegion_points (m_invalidateRegion s')"
    by blast
  have nc: "new_calls s' s'' = xs"
    using xs(1) by (simp add: new_calls_def u p_def)
  have a: "\<not> LOCKED s''" "m_currentBaseLayer s'' = m_baseLayer s'"
    "SkRegion_isEmpty (m_invalidateRegion s'')"
    using fl by (simp_all add: u LOCKED_def p_def SkRegion_isEmpty_def SkRegion_setEmpty_def)
  have b: "SkRegion_points (m_invalidateRegion s') \<subseteq> IntRect_points (m_frameworkInval s'')"
    using fl by (simp add: u)
  have c: "unlockBaseLayerUpdate s'' = s''"
    using a(1) by (simp add: unlockBaseLayerUpdate_def LOCKED_def)
  have d: "\<not> LOCKED t \<longrightarrow> unlockBaseLayerUpdate t = t"
    by (simp add: unlockBaseLayerUpdate_def LOCKED_def)
  have r: "reachable t \<and> \<not> LOCKED t \<longrightarrow>
          SkRegion_isEmpty (m_invalidateRegion t)
          \<and> SkRegion_isEmpty (m_invalidateRegion (lockBaseLayerUpdate t))"
    using reachable_gate_inv[of t]
    by (simp add: LOCKED_def SkRegion_isEmpty_def lockBaseLayerUpdate_def)
  show ?thesis
    unfolding Let_def s'_def[symmetric] s''_def[symmetric]
    using seq a b c d r nc xs(2) by (simp add: LOCKED_def)
qed

theorem locked_setBaseLayer_then_unlock_witness:
  "LOCKED (lockBaseLayerUpdate example_state)
   \<and> m_currentBaseLayer
        (setBaseLayer_calls
           [(Some (example_layer 2), [SkIRect_set 0 0 10 10], False),
            (Some (example_layer 3), [SkIRect_set 20 20 30 30], False)]
           (lockBaseLayerUpdate example_state))
       = Some (example_layer 1)
   \<and> m_baseLayer
        (setBaseLayer_calls
           [(Some (example_layer 2), [SkIRect_set 0 0 10 10], False),
            (Some (example_layer 3), [SkIRect_set 20 20 30 30], False)]
           (lockBaseLayerUpdate example_state))
       = Some (example_layer 3)
   \<and> m_currentBaseLayer
        (unlockBaseLayerUpdate (setBaseLayer_calls
           [(Some (example_layer 2), [SkIRect_set 0 0 10 10], False),
            (Some (example_layer 3), [SkIRect_set 20 20 30 30], False)]
           (lockBaseLayerUpdate example_state)))
       = Some (example_layer 3)
   \<and> SkRegion_isEmpty (m_invalidateRegion
        (unlockBaseLayerUpdate (setBaseLayer_calls
           [(Some (example_layer 2), [SkIRect_set 0 0 10 10], False),
            (Some (example_layer 3), [SkIRect_set 20 20 30 30], False)]
           (lockBaseLayerUpdate example_state))))
   \<and> SkRegion_points (m_invalidateRegion
        (setBaseLayer_calls
           [(Some (example_layer 2), [SkIRect_set 0 0 10 10], False),
            (Some (example_layer 3), [SkIRect_set 20 20 30 30], False)]
           (lockBaseLayerUpdate example_state)))
       = SkIRect_points (SkIRect_set 0 0 10 10) \<union> SkIRect_points (SkIRect_set 20 20 30 30)
   \<and> \<not> LOCKED example_state
   \<and> unlockBaseLayerUpdate example_state = example_state
   \<and> reachable example_state
   \<and> SkRegion_isEmpty (m_invalidateRegion (lockBaseLayerUpdate example_state))"
proof -
  let ?cs = "[(Some (example_layer 2), [SkIRect_set 0 0 10 10], False),
            (Some (example_layer 3), [SkIRect_set 20 20 30 30], False)]"
  have l: "LOCKED (lockBaseLayerUpdate example_state)"
    by (simp add: LOCKED_def lockBaseLayerUpdate_def)
  have f: "m_currentBaseLayer (lockBaseLayerUpdate example_state) = Some (example_layer 1)"
    "SkRegion_points (m_invalidateRegion (lockBaseLayerUpdate example_state)) = {}"
    "\<not> LOCKED example_state"
    by (simp_all add: eval_defs SkRegion_points_def)
  have r: "reachable example_state"
    using reachable_op[OF reachable_new, of example_env
        "Op_setBaseLayer (Some (example_layer 1)) [] False False"]
    by (simp add: example_state_def)
  show ?thesis
    using locked_setBaseLayer_then_unlock[OF l, of ?cs example_state] l f r
    by (simp add: Let_def SkRegion_points_def)
qed

text \<open>
  C3, as stated: a \<^verbatim>\<open>setBaseLayer\<close> call with \<^verbatim>\<open>isPictureAfterFirstLayout\<close> set makes the
  gate LOCKED. The call sets \<open>m_baseLayerUpdate\<close>, which is the open gate: after it the
  gate is not LOCKED, whether it was before or not.
\<close>
theorem setBaseLayer_first_layout_counterexample:
  "LOCKED (lockBaseLayerUpdate GLWebViewState_new)
   \<and> \<not> LOCKED (setBaseLayer (Some (example_layer 1)) [] False True (lockBaseLayerUpdate GLWebViewState_new))
   \<and> \<not> LOCKED (setBaseLayer (Some (example_layer 1)) [] False True GLWebViewState_new)"
  by (simp add: LOCKED_def lockBaseLayerUpdate_def setBaseLayer_def Let_def GLWebViewState_new_def
      SkRegion_setEmpty_def)

text \<open>
  C3, amended: every \<^verbatim>\<open>setBaseLayer\<close> call with \<^verbatim>\<open>isPictureAfterFirstLayout\<close> set first
  asks both tiled pages to discard their textures, leaves the gate open (not
  LOCKED) with the supplied layer as latest and as current layer, leaves the pending
  region empty (also after a following \<^verbatim>\<open>unlockBaseLayerUpdate\<close>), and clears the
  display of the rings.
\<close>
theorem setBaseLayer_first_layout_unlocks:
  "(let s' = setBaseLayer layer rgn ind True s in
      \<not> LOCKED s'
    \<and> SkRegion_isEmpty (m_invalidateRegion s')
    \<and> SkRegion_isEmpty (m_invalidateRegion (unlockBaseLayerUpdate s'))
    \<and> \<not> m_displayRings s'
    \<and> m_baseLayer s' = layer
    \<and> m_currentBaseLayer s' = layer
    \<and> take 2 (new_calls s s')
        = [(TiledPage_discardTextures (m_tiledPageA s), frontPage s),
           (TiledPage_discardTextures (m_tiledPageB s), frontPage s)])"
proof -
  define s' where "s' = setBaseLayer layer rgn ind True s"
  note f = setBaseLayer_flagged[of layer rgn ind s, folded s'_def]
  from f obtain zs where zs: "calls s' = calls s @ [(TiledPage_discardTextures (m_tiledPageA s), frontPage s),
                       (TiledPage_discardTextures (m_tiledPageB s), frontPage s)] @ zs"
    by blast
  have t: "take 2 (new_calls s s')
        = [(TiledPage_discardTextures (m_tiledPageA s), frontPage s),
           (TiledPage_discardTextures (m_tiledPageB s), frontPage s)]"
    by (simp add: new_calls_def zs)
  have b: "unlockBaseLayerUpdate s' = s'"
    using f by (simp add: unlockBaseLayerUpdate_def)
  show ?thesis
    unfolding Let_def s'_def[symmetric]
    using f b t by (simp add: LOCKED_def SkRegion_isEmpty_def)
qed

section \<open>Drawing a frame\<close>

text \<open>
  C1, as stated: whenever the draw reported dirtiness or the inverted screen mode was
  switched, a non-empty base-content union is reported (mapped, inflated and united
  with the layers' union) unless it misses the frame. In a frame with a switch of
  the inverted screen mode the code reports the sentinel although the union (0,0,10,10)
  is not empty and lies inside the frame, where the claim's words give (-1,-1,12,12).
\<close>
theorem drawGL_inverted_switch_counterexample:
  "invertedScreenSwitch example_switch_state
   \<and> m_frameworkInval example_switch_state = mkIntRect 0 0 10 10
   \<and> \<not> IntRect_isEmpty (mkIntRect 0 0 10 10)
   \<and> is_Returned (drawGL example_env (mkIntRect 0 0 100 100)
        \<lparr>fLeft = 0, fTop = 0, fRight = 100, fBottom = 100\<rparr> (mkIntRect 7 7 7 7)
        (mkIntRect 0 0 100 100) 0 (mkIntRect 0 0 100 100) 1 example_switch_state)
   \<and> returned_value (drawGL example_env (mkIntRect 0 0 100 100)
        \<lparr>fLeft = 0, fTop = 0, fRight = 100, fBottom = 100\<rparr> (mkIntRect 7 7 7 7)
        (mkIntRect 0 0 100 100) 0 (mkIntRect 0 0 100 100) 1 example_switch_state)
   \<and> returned_invalRect (drawGL example_env (mkIntRect 0 0 100 100)
        \<lparr>fLeft = 0, fTop = 0, fRight = 100, fBottom = 100\<rparr> (mkIntRect 7 7 7 7)
        (mkIntRect 0 0 100 100) 0 (mkIntRect 0 0 100 100) 1 example_switch_state) = mkIntRect 0 0 0 0
   \<and> m_frameworkInval (returned_state (drawGL example_env (mkIntRect 0 0 100 100)
        \<lparr>fLeft = 0, fTop = 0, fRight = 100, fBottom = 100\<rparr> (mkIntRect 7 7 7 7)
        (mkIntRect 0 0 100 100) 0 (mkIntRect 0 0 100 100) 1 example_switch_state)) = mkIntRect 0 0 10 10
   \<and> C1_claimed_invalRect example_env (mkIntRect 0 0 100 100) (mkIntRect 0 0 10 10) (mkIntRect 0 0 0 0)
       = mkIntRect (- 1) (- 1) 12 12"
proof -
  let ?vp = "\<lparr>fLeft = 0, fTop = 0, fRight = 100, fBottom = 100\<rparr>"
  let ?R = "mkIntRect 0 0 100 100"
  let ?p = "drawGL_prepare example_env ?vp 1 example_switch_state"
  let ?d = "drawGL_draw example_env ?R ?vp ?R 0 ?R 1 (example_layer 1) None (ready_state ?p)"
  note pf = drawGL_prepare_example[of example_switch_state 1 example_env ?vp,
      OF example_switch_state_fields(1) example_switch_state_fields(2)]
  have e: "BaseLayerAndroid_drawGL example_env = (\<lambda>s. (True, []))" by simp
  note df = drawGL_draw_example[OF e, of ?R ?vp ?R 0 ?R 1 "example_layer 1" None "ready_state ?p"]
  have sw: "invertedScreenSwitch (snd ?d)"
    using df(4) pf(4) example_switch_state_fields(3) by simp
  have r: "drawGL example_env ?R ?vp (mkIntRect 7 7 7 7) ?R 0 ?R 1 example_switch_state
         = Returned True (mkIntRect 0 0 0 0) ((snd ?d)\<lparr>invertedScreenSwitch := False\<rparr>)"
    using sw by (simp add: drawGL_Ready[OF pf(1)] drawGL_inval_eq)
  have c: "C1_claimed_invalRect example_env ?R (mkIntRect 0 0 10 10) (mkIntRect 0 0 0 0)
       = mkIntRect (- 1) (- 1) 12 12"
    apply (simp add: C1_claimed_invalRect_def example_inflate Let_def)
    apply (simp add: IntRect_isEmpty_def IntRect_unite_def IntRect_intersects_def mkIntRect_def
        IntRect_maxX_def IntRect_maxY_def)
    done
  have n: "\<not> IntRect_isEmpty (mkIntRect 0 0 10 10)"
    by (simp add: IntRect_isEmpty_def mkIntRect_def)
  have u: "m_frameworkInval (snd ?d) = mkIntRect 0 0 10 10"
    using df(2) pf(2) example_switch_state_fields(4) by simp
  show ?thesis
    using example_switch_state_fields(3,4) n c u by (simp add: r)
qed

text \<open>
  C1, amended: for a frame that passes the preparation (a base layer is present and
  the scale is plausible), let \<open>ret0\<close> be what the delegated draw reported and \<open>s7\<close> the
  state after it. If \<open>ret0\<close> holds or the inverted screen mode was switched,
  \<^verbatim>\<open>drawGL\<close> returns true, clears the switch flag, and reports the full-screen sentinel
  (0,0,0,0) when the base-content union is empty or the mode was switched;
  otherwise it reports the union mapped to the screen, inflated by 1, converted to
  integers and united with the layers' union, or the sentinel if that rectangle does
  not intersect \<open>rect\<close>, the first argument of \<^verbatim>\<open>drawGL\<close> (the argument \<open>clip\<close> is not
  consulted). If neither holds, \<^verbatim>\<open>drawGL\<close> returns false, resets the base-content union and
  leaves \<open>invalRect\<close> as it was.
\<close>
theorem drawGL_reports_inval:
  assumes "drawGL_prepare e viewport scale s = Ready baseLayer compositedRoot s6"
    and "drawGL_draw e rect viewport webViewRect titleBarHeight clip scale baseLayer compositedRoot s6
           = (ret0, s7)"
  shows "drawGL e rect viewport invalRect webViewRect titleBarHeight clip scale s =
     (if ret0 \<or> invertedScreenSwitch s7 then
        Returned True
          (if IntRect_isEmpty (m_frameworkInval s7) \<or> invertedScreenSwitch s7 then mkIntRect 0 0 0 0
           else
             (let f = FloatRect_inflate 1 (rectInInvScreenCoord e (m_frameworkInval s7));
                  r = IntRect_unite
                        (mkIntRect (static_cast_int (f_x f)) (static_cast_int (f_y f))
                           (static_cast_int (f_width f)) (static_cast_int (f_height f)))
                        (m_frameworkLayersInval s7)
              in if IntRect_intersects r rect then r else mkIntRect 0 0 0 0))
          (s7\<lparr>invertedScreenSwitch := False\<rparr>)
      else Returned False invalRect (s7\<lparr>m_frameworkInval := mkIntRect 0 0 0 0\<rparr>))"
  using assms by (simp add: drawGL_def drawGL_inval_eq)

theorem drawGL_reports_inval_witness:
  "drawGL_prepare example_env \<lparr>fLeft = 0, fTop = 0, fRight = 100, fBottom = 100\<rparr> 1 example_dirty_state
     = Ready (example_layer 1) None
         (ready_state (drawGL_prepare example_env
            \<lparr>fLeft = 0, fTop = 0, fRight = 100, fBottom = 100\<rparr> 1 example_dirty_state))
   \<and> is_Returned (drawGL example_env (mkIntRect 0 0 100 100)
        \<lparr>fLeft = 0, fTop = 0, fRight = 100, fBottom = 100\<rparr> (mkIntRect 7 7 7 7)
        (mkIntRect 0 0 100 100) 0 (mkIntRect 0 0 100 100) 1 example_dirty_state)
   \<and> returned_value (drawGL example_env (mkIntRect 0 0 100 100)
        \<lparr>fLeft = 0, fTop = 0, fRight = 100, fBottom = 100\<rparr> (mkIntRect 7 7 7 7)
        (mkIntRect 0 0 100 100) 0 (mkIntRect 0 0 100 100) 1 example_dirty_state)
   \<and> returned_invalRect (drawGL example_env (mkIntRect 0 0 100 100)
        \<lparr>fLeft = 0, fTop = 0, fRight = 100, fBottom = 100\<rparr> (mkIntRect 7 7 7 7)
        (mkIntRect 0 0 100 100) 0 (mkIntRect 0 0 100 100) 1 example_dirty_state)
       = mkIntRect (- 1) (- 1) 12 12
   \<and> returned_invalRect (drawGL example_env (mkIntRect 500 500 100 100)
        \<lparr>fLeft = 0, fTop = 0, fRight = 100, fBottom = 100\<rparr> (mkIntRect 7 7 7 7)
        (mkIntRect 0 0 100 100) 0 (mkIntRect 0 0 100 100) 1 example_dirty_state)
       = mkIntRect 0 0 0 0"
proof -
  let ?vp = "\<lparr>fLeft = 0, fTop = 0, fRight = 100, fBottom = 100\<rparr>"
  let ?R = "mkIntRect 0 0 100 100"
  let ?Q = "mkIntRect 500 500 100 100"
  let ?p = "drawGL_prepare example_env ?vp 1 example_dirty_state"
  note pf = drawGL_prepare_example[of example_dirty_state 1 example_env ?vp,
      OF example_dirty_state_fields(1) example_dirty_state_fields(2)]
  have e: "BaseLayerAndroid_drawGL example_env = (\<lambda>s. (True, []))" by simp
  have x: "IntRect_unite (mkIntRect (- 1) (- 1) 12 12) (mkIntRect 0 0 0 0) = mkIntRect (- 1) (- 1) 12 12"
    "IntRect_intersects (mkIntRect (- 1) (- 1) 12 12) ?R"
    "\<not> IntRect_intersects (mkIntRect (- 1) (- 1) 12 12) ?Q"
    "\<not> IntRect_isEmpty (mkIntRect 0 0 10 10)"
    by (simp_all add: IntRect_isEmpty_def IntRect_unite_def IntRect_intersects_def mkIntRect_def
        IntRect_maxX_def IntRect_maxY_def)
  have a: "drawGL example_env ?R ?vp (mkIntRect 7 7 7 7) ?R 0 ?R 1 example_dirty_state
        = Returned True (mkIntRect (- 1) (- 1) 12 12)
            ((snd (drawGL_draw example_env ?R ?vp ?R 0 ?R 1 (example_layer 1) None (ready_state ?p)))
               \<lparr>invertedScreenSwitch := False\<rparr>)"
    using drawGL_reports_inval[where rect = ?R and webViewRect = ?R and titleBarHeight = 0
          and clip = ?R and invalRect = "mkIntRect 7 7 7 7", OF pf(1) prod.collapse[symmetric]]
      drawGL_draw_example[OF e, of ?R ?vp ?R 0 ?R 1 "example_layer 1" None "ready_state ?p"]
      pf(2,3,4) example_dirty_state_fields(4,5) x
    by (simp add: example_inflate Let_def)
  have b: "drawGL example_env ?Q ?vp (mkIntRect 7 7 7 7) ?R 0 ?R 1 example_dirty_state
        = Returned True (mkIntRect 0 0 0 0)
            ((snd (drawGL_draw example_env ?Q ?vp ?R 0 ?R 1 (example_layer 1) None (ready_state ?p)))
               \<lparr>invertedScreenSwitch := False\<rparr>)"
    using drawGL_reports_inval[where rect = ?Q and webViewRect = ?R and titleBarHeight = 0
          and clip = ?R and invalRect = "mkIntRect 7 7 7 7", OF pf(1) prod.collapse[symmetric]]
      drawGL_draw_example[OF e, of ?Q ?vp ?R 0 ?R 1 "example_layer 1" None "ready_state ?p"]
      pf(2,3,4) example_dirty_state_fields(4,5) x
    by (simp add: example_inflate Let_def)
  show ?thesis using pf(1) by (simp add: a b)
qed

text \<open>
  C5: with a base layer present and a scale below 0.1 or above 10, \<^verbatim>\<open>drawGL\<close> logs
  the warning before the upload, goes on to upload the dirty base tiles, logs the
  warning after the upload and aborts. With a scale inside the range \<^verbatim>\<open>drawGL\<close>
  returns; without a base layer it returns false whatever the scale.
\<close>
theorem drawGL_scale_checks:
  "(m_currentBaseLayer s \<noteq> None \<and> scale_corrupted scale \<longrightarrow>
      (\<exists>s'. drawGL e rect viewport invalRect webViewRect titleBarHeight clip scale s = CRASH s'
         \<and> map fst (new_calls s s')
             = [Profiler_nextFrame viewport scale, TilesManager_incDrawGLCount,
                XLOGC_scale_before_update scale, TransferQueue_updateDirtyBaseTiles,
                XLOGC_scale_after_update scale]))
   \<and> (\<not> scale_corrupted scale \<longrightarrow>
        is_Returned (drawGL e rect viewport invalRect webViewRect titleBarHeight clip scale s))
   \<and> (m_currentBaseLayer s = None \<longrightarrow>
        drawGL e rect viewport invalRect webViewRect titleBarHeight clip scale s
          = Returned False invalRect
              (emit TilesManager_incDrawGLCount (emit (Profiler_nextFrame viewport scale) s)))
   \<and> (scale_corrupted scale \<longleftrightarrow> scale < 1 / 10 \<or> 10 < scale)"
proof (intro conjI impI)
  assume a: "m_currentBaseLayer s \<noteq> None \<and> scale_corrupted scale"
  then obtain bl where bl: "m_currentBaseLayer s = Some bl" by auto
  show "\<exists>s'. drawGL e rect viewport invalRect webViewRect titleBarHeight clip scale s = CRASH s'
         \<and> map fst (new_calls s s')
             = [Profiler_nextFrame viewport scale, TilesManager_incDrawGLCount,
                XLOGC_scale_before_update scale, TransferQueue_updateDirtyBaseTiles,
                XLOGC_scale_after_update scale]"
    using a bl
    by (simp add: drawGL_def drawGL_prepare_def Let_def new_calls_def resetLayersDirtyArea_def)
next
  assume n: "\<not> scale_corrupted scale"
  show "is_Returned (drawGL e rect viewport invalRect webViewRect titleBarHeight clip scale s)"
  proof (cases "drawGL_prepare e viewport scale s")
    case (NoBaseLayer s2)
    then show ?thesis by (simp add: drawGL_def)
  next
    case (Crashed s6)
    then show ?thesis using n
      by (simp add: drawGL_prepare_def Let_def split: option.splits)
  next
    case (Ready bl cr s6)
    then show ?thesis
      by (simp add: drawGL_def is_Returned_drawGL_inval split: prod.splits)
  qed
next
  assume "m_currentBaseLayer s = None"
  then show "drawGL e rect viewport invalRect webViewRect titleBarHeight clip scale s
          = Returned False invalRect
              (emit TilesManager_incDrawGLCount (emit (Profiler_nextFrame viewport scale) s))"
    by (simp add: drawGL_def drawGL_prepare_def Let_def)
next
  show "scale_corrupted scale \<longleftrightarrow> scale < 1 / 10 \<or> 10 < scale"
    by (simp add: scale_corrupted_def MIN_SCALE_WARNING_def MAX_SCALE_WARNING_def)
qed

theorem drawGL_scale_checks_witness:
  "m_currentBaseLayer example_state \<noteq> None
   \<and> scale_corrupted 50
   \<and> is_CRASH (drawGL example_env (mkIntRect 0 0 100 100)
        \<lparr>fLeft = 0, fTop = 0, fRight = 100, fBottom = 100\<rparr> (mkIntRect 7 7 7 7)
        (mkIntRect 0 0 100 100) 0 (mkIntRect 0 0 100 100) 50 example_state)
   \<and> \<not> scale_corrupted 1
   \<and> is_Returned (drawGL example_env (mkIntRect 0 0 100 100)
        \<lparr>fLeft = 0, fTop = 0, fRight = 100, fBottom = 100\<rparr> (mkIntRect 7 7 7 7)
        (mkIntRect 0 0 100 100) 0 (mkIntRect 0 0 100 100) 1 example_state)
   \<and> m_currentBaseLayer GLWebViewState_new = None
   \<and> is_Returned (drawGL example_env (mkIntRect 0 0 100 100)
        \<lparr>fLeft = 0, fTop = 0, fRight = 100, fBottom = 100\<rparr> (mkIntRect 7 7 7 7)
        (mkIntRect 0 0 100 100) 0 (mkIntRect 0 0 100 100) 50 GLWebViewState_new)
   \<and> \<not> returned_value (drawGL example_env (mkIntRect 0 0 100 100)
        \<lparr>fLeft = 0, fTop = 0, fRight = 100, fBottom = 100\<rparr> (mkIntRect 7 7 7 7)
        (mkIntRect 0 0 100 100) 0 (mkIntRect 0 0 100 100) 50 GLWebViewState_new)"
proof -
  let ?vp = "\<lparr>fLeft = 0, fTop = 0, fRight = 100, fBottom = 100\<rparr>"
  let ?R = "mkIntRect 0 0 100 100"
  have c: "m_currentBaseLayer example_state \<noteq> None" by (simp add: example_state_fields)
  have n: "m_currentBaseLayer GLWebViewState_new = None" by (simp add: GLWebViewState_new_def)
  have k: "scale_corrupted 50" "\<not> scale_corrupted 1"
    by (simp_all add: scale_corrupted_def MIN_SCALE_WARNING_def MAX_SCALE_WARNING_def)
  have a: "is_CRASH (drawGL example_env ?R ?vp (mkIntRect 7 7 7 7) ?R 0 ?R 50 example_state)"
    using drawGL_scale_checks[of example_state 50 example_env ?R ?vp "mkIntRect 7 7 7 7" ?R 0 ?R] c k
    by auto
  have b: "is_Returned (drawGL example_env ?R ?vp (mkIntRect 7 7 7 7) ?R 0 ?R 1 example_state)"
    using drawGL_scale_checks[of example_state 1 example_env ?R ?vp "mkIntRect 7 7 7 7" ?R 0 ?R] k
    by simp
  have d: "drawGL example_env ?R ?vp (mkIntRect 7 7 7 7) ?R 0 ?R 50 GLWebViewState_new
            = Returned False (mkIntRect 7 7 7 7)
                (emit TilesManager_incDrawGLCount (emit (Profiler_nextFrame ?vp 50) GLWebViewState_new))"
    using drawGL_scale_checks[of GLWebViewState_new 50 example_env ?R ?vp "mkIntRect 7 7 7 7" ?R 0 ?R] n
    by simp
  show ?thesis using c n k a b by (simp add: d)
qed

end
